theory Spec2Isabelle
  imports Complex_Main
begin

section \<open>Data model\<close>

text \<open>
  The four entities of the backend, as the services read and write them. Identifiers are
  the strings the source passes around; creation times are points of a linear clock.
  Field names carry the entity as a prefix, since several entities share \<open>id\<close>,
  \<open>postId\<close> and \<open>createdAt\<close>.
\<close>

type_synonym ident = string
type_synonym timestamp = nat

record User =
  user_id :: ident
  user_email :: string
  user_username :: string
  user_name :: "string option"
  user_avatar :: "string option"
  user_bio :: "string option"
  user_createdAt :: timestamp
  user_updatedAt :: timestamp

record Post =
  post_id :: ident
  post_title :: string
  post_content :: string
  post_imageUrl :: "string option"
  post_published :: bool
  post_authorId :: ident
  post_createdAt :: timestamp
  post_updatedAt :: timestamp

record Comment =
  comment_id :: ident
  comment_content :: string
  comment_authorId :: ident
  comment_postId :: ident
  comment_parentId :: "ident option"
  comment_createdAt :: timestamp
  comment_updatedAt :: timestamp

record Like =
  like_id :: ident
  like_userId :: ident
  like_postId :: ident
  like_createdAt :: timestamp

text \<open>
  The relational store: one list of rows per table. The position of a row in its list is
  the order in which a query without an ordering clause yields it.
\<close>

record store =
  users :: "User list"
  posts :: "Post list"
  comments :: "Comment list"
  likes :: "Like list"

text \<open>
  The values the store generates for a new row (its identifier and the current time) are
  handed to every creating operation.
\<close>

record gen =
  newId :: ident
  now :: timestamp

text \<open>
  What a rejected promise carries: a plain \<open>Error\<close> thrown by a service with its
  message, or one of the client's own errors.
\<close>

datatype error =
  Error string
  | UniqueConstraintViolation
  | ForeignKeyViolation
  | RecordNotFound
  | ValidationError

section \<open>Input and response types\<close>

record CreateUserInput =
  cu_email :: string
  cu_username :: string
  cu_name :: "string option"
  cu_avatar :: "string option"
  cu_bio :: "string option"



record CreateLikeInput =
  cl_userId :: ident
  cl_postId :: ident

text \<open>
  Page and limit are the integers the handlers parse from the query string; an absent
  field takes the default of the operation.
\<close>

record PaginationParams =
  pp_page :: "int option"
  pp_limit :: "int option"
  pp_cursor :: "string option"

record PostFilters =
  filter_authorId :: "ident option"
  filter_published :: "bool option"
  filter_search :: "string option"

text \<open>
  The value of \<open>Math.ceil(total / limit)\<close>: a number, or what the division by zero
  leaves.
\<close>

datatype jsnum = Num int | Infinity | NaN

record PaginationMeta =
  meta_total :: nat
  meta_page :: int
  meta_limit :: int
  meta_totalPages :: jsnum
  meta_hasMore :: bool

record 'a PaginatedResponse =
  data :: "'a list"
  meta :: PaginationMeta

type_synonym CommentWithAuthor = "Comment \<times> User option"

record CommentWithReplies =
  cwr_comment :: Comment
  cwr_author :: "User option"
  cwr_replies :: "CommentWithAuthor list"

type_synonym LikeWithUser = "Like \<times> User option"

type_synonym LikeWithPost = "Like \<times> (ident \<times> string) option"

record PostWithCounts =
  pwc_post :: Post
  pwc_author :: "User option"
  pwc_count_likes :: nat
  pwc_count_comments :: nat

record PostFull =
  full_post :: Post
  full_author :: "User option"
  full_comments :: "CommentWithReplies list"
  full_likes :: "Like list"
  full_count_likes :: nat
  full_count_comments :: nat

record toggle_result =
  liked :: bool
  like :: "Like option"

record 'a ApiResponse =
  success :: bool
  api_data :: "'a option"
  api_error :: "string option"
  api_message :: "string option"

record 'a Response =
  status :: nat
  body :: "'a ApiResponse"

text \<open>
  The JSON bodies of the two creating requests, before any validation: every field may
  be missing.
\<close>

record UserCreateBody =
  body_email :: "string option"
  body_username :: "string option"
  body_name :: "string option"
  body_avatar :: "string option"
  body_bio :: "string option"

record LikeBody =
  body_userId :: "string option"

section \<open>Store primitives\<close>

text \<open>
  The services reach the store through the database client \<open>lib/prisma\<close> and its
  schema, which are not among the sources. The client's operations are modelled below on
  the lists of rows, as far as the specification describes them: the uniqueness indexes
  of section 6 and the references of section 3 (a like belongs to a user and a post, a
  comment to a user, a post and, as a reply, a parent comment) are enforced on insert,
  and a generated identifier is taken as given.
\<close>

text \<open>
  Modelled from the spec: \<open>findUnique\<close> of the absent database client. A lookup by a
  unique key returns the row or nothing.
\<close>

definition findUnique :: "('r \<Rightarrow> bool) \<Rightarrow> 'r list \<Rightarrow> 'r option" where
  "findUnique P rows = List.find P rows"

text \<open>
  Modelled from the spec: \<open>count\<close> of the absent database client, the number of
  rows that satisfy a condition.
\<close>

definition count_where :: "('r \<Rightarrow> bool) \<Rightarrow> 'r list \<Rightarrow> nat" where
  "count_where P rows = length (filter P rows)"

datatype sort_order = Asc | Desc

text \<open>
  Modelled from the spec: the \<open>orderBy\<close> argument of the absent database client,
  on the creation time: oldest first or newest first. Rows of equal creation time keep
  their table order when ascending and the reverse of it when descending.
\<close>

definition orderBy :: "sort_order \<Rightarrow> ('r \<Rightarrow> timestamp) \<Rightarrow> 'r list \<Rightarrow> 'r list" where
  "orderBy dir key rows =
     (case dir of Asc \<Rightarrow> sort_key key rows | Desc \<Rightarrow> rev (sort_key key rows))"

text \<open>
  Modelled from the spec: \<open>findMany\<close> of the absent database client. A list query
  filters, orders, skips \<open>skip\<close> rows and takes \<open>take\<close> rows. The client refuses a
  negative \<open>skip\<close>; a negative \<open>take\<close> counts from the end of the ordered rows.
\<close>

definition findMany ::
  "('r \<Rightarrow> bool) \<Rightarrow> sort_order \<Rightarrow> ('r \<Rightarrow> timestamp) \<Rightarrow> int \<Rightarrow> int \<Rightarrow> 'r list \<Rightarrow> error + 'r list" where
  "findMany P dir key skip tk rows =
     (if skip < 0 then Inl ValidationError
      else
        (let ordered = orderBy dir key (filter P rows)
         in if 0 \<le> tk then Inr (take (nat tk) (drop (nat skip) ordered))
            else Inr (rev (take (nat (- tk)) (drop (nat skip) (rev ordered))))))"

text \<open>
  Modelled from the spec: a query or an included relation of the absent database client
  that names no ordering. Its rows come as the table holds them.
\<close>

definition findMany_unordered :: "('r \<Rightarrow> bool) \<Rightarrow> 'r list \<Rightarrow> 'r list" where
  "findMany_unordered P rows = filter P rows"

text \<open>
  Modelled from the spec: the foreign keys of the absent schema. A reference holds when
  a row of the referenced table has the identifier.
\<close>

definition user_exists :: "store \<Rightarrow> ident \<Rightarrow> bool" where
  "user_exists s uid = (findUnique (\<lambda>u. user_id u = uid) (users s) \<noteq> None)"

definition post_exists :: "store \<Rightarrow> ident \<Rightarrow> bool" where
  "post_exists s pid = (findUnique (\<lambda>p. post_id p = pid) (posts s) \<noteq> None)"


text \<open>
  Modelled from the spec: \<open>user.create\<close> of the absent database client. The Users
  table has a uniqueness index on the email and one on the username; inserting a user
  whose email or username is present is refused.
\<close>

definition user_create :: "gen \<Rightarrow> store \<Rightarrow> CreateUserInput \<Rightarrow> error + (store \<times> User)" where
  "user_create g s d =
     (if findUnique (\<lambda>u. user_email u = cu_email d) (users s) \<noteq> None
         \<or> findUnique (\<lambda>u. user_username u = cu_username d) (users s) \<noteq> None
      then Inl UniqueConstraintViolation
      else
        (let u = \<lparr>user_id = newId g, user_email = cu_email d, user_username = cu_username d,
                  user_name = cu_name d, user_avatar = cu_avatar d, user_bio = cu_bio d,
                  user_createdAt = now g, user_updatedAt = now g\<rparr>
         in Inr (s\<lparr>users := users s @ [u]\<rparr>, u)))"


text \<open>
  Modelled from the spec: \<open>like.create\<close> of the absent database client. The Likes
  table has a uniqueness index on the pair (userId, postId). Inserting a like for a pair
  that is present is refused, and so is a like whose user or post does not exist;
  otherwise the row is added with its generated identifier and creation time.
\<close>

definition like_create :: "gen \<Rightarrow> store \<Rightarrow> CreateLikeInput \<Rightarrow> error + (store \<times> Like)" where
  "like_create g s d =
     (if findUnique (\<lambda>l. like_userId l = cl_userId d \<and> like_postId l = cl_postId d) (likes s)
           \<noteq> None
      then Inl UniqueConstraintViolation
      else if \<not> (user_exists s (cl_userId d) \<and> post_exists s (cl_postId d))
      then Inl ForeignKeyViolation
      else
        (let l = \<lparr>like_id = newId g, like_userId = cl_userId d,
                  like_postId = cl_postId d, like_createdAt = now g\<rparr>
         in Inr (s\<lparr>likes := likes s @ [l]\<rparr>, l)))"

text \<open>
  Modelled from the spec: \<open>like.delete\<close> of the absent database client. Deleting by
  the composite key removes the row of that pair and returns it; the client rejects when
  no row has the key.
\<close>

definition like_delete :: "store \<Rightarrow> ident \<Rightarrow> ident \<Rightarrow> error + (store \<times> Like)" where
  "like_delete s userId postId =
     (case findUnique (\<lambda>l. like_userId l = userId \<and> like_postId l = postId) (likes s) of
        None \<Rightarrow> Inl RecordNotFound
      | Some l \<Rightarrow>
          Inr (s\<lparr>likes := filter (\<lambda>l. \<not> (like_userId l = userId \<and> like_postId l = postId))
                               (likes s)\<rparr>, l))"

text \<open>
  Modelled from the spec: \<open>like.groupBy\<close> of the absent database client, by
  \<open>postId\<close> with a count. Grouping gives one group per post that has a like among
  the rows, with the number of its rows.
\<close>

definition groupBy_postId :: "Like list \<Rightarrow> (ident \<times> nat) list" where
  "groupBy_postId rows =
     map (\<lambda>p. (p, count_where (\<lambda>l. like_postId l = p) rows)) (remdups (map like_postId rows))"

text \<open>
  Modelled from the spec: the \<open>contains\<close> filter of the absent database client in
  its case-insensitive mode, the substring match of the search filter, folding the
  letters A to Z.
\<close>

definition lower_char :: "char \<Rightarrow> char" where
  "lower_char c =
     (if 65 \<le> (of_char c :: nat) \<and> (of_char c :: nat) \<le> 90
      then char_of ((of_char c :: nat) + 32) else c)"

fun starts_with :: "string \<Rightarrow> string \<Rightarrow> bool" where
  "starts_with hay [] = True"
| "starts_with [] (n # ns) = False"
| "starts_with (h # hs) (n # ns) = (h = n \<and> starts_with hs ns)"

fun contains_str :: "string \<Rightarrow> string \<Rightarrow> bool" where
  "contains_str [] needle = starts_with [] needle"
| "contains_str (h # hs) needle = (starts_with (h # hs) needle \<or> contains_str hs needle)"

definition contains_insensitive :: "string \<Rightarrow> string \<Rightarrow> bool" where
  "contains_insensitive hay needle = contains_str (map lower_char hay) (map lower_char needle)"

text \<open>
  The relations a query includes: the author of a row, the user of a like, the summary
  of the liked post.
\<close>

definition author_of :: "store \<Rightarrow> ident \<Rightarrow> User option" where
  "author_of s uid = findUnique (\<lambda>u. user_id u = uid) (users s)"

definition with_author :: "store \<Rightarrow> Comment \<Rightarrow> CommentWithAuthor" where
  "with_author s c = (c, author_of s (comment_authorId c))"

definition post_summary_of :: "store \<Rightarrow> ident \<Rightarrow> (ident \<times> string) option" where
  "post_summary_of s pid =
     map_option (\<lambda>p. (post_id p, post_title p)) (findUnique (\<lambda>p. post_id p = pid) (posts s))"

text \<open>
  \<open>Math.ceil(total / limit)\<close> on a row count and an integer limit: the quotient
  rounded up, \<open>Infinity\<close> for a positive count over zero, \<open>NaN\<close> for zero over zero.
\<close>

definition Math_ceil_div :: "nat \<Rightarrow> int \<Rightarrow> jsnum" where
  "Math_ceil_div total' limit =
     (if limit = 0 then (if total' = 0 then NaN else Infinity)
      else Num (- ((- int total') div limit)))"

text \<open>A string the source treats as absent: missing or empty.\<close>

definition falsy :: "string option \<Rightarrow> bool" where
  "falsy x = (case x of None \<Rightarrow> True | Some v \<Rightarrow> v = [])"

text \<open>
  The responses of the handlers: \<open>jsonResponse\<close> with its status, and the two shapes
  of body the handlers pass to it, \<open>{success: false, error}\<close> and
  \<open>{success: true, data}\<close>.
\<close>

definition jsonResponse :: "'a ApiResponse \<Rightarrow> nat \<Rightarrow> 'a Response" where
  "jsonResponse d st = \<lparr>status = st, body = d\<rparr>"

definition failure :: "string \<Rightarrow> 'a ApiResponse" where
  "failure msg = \<lparr>success = False, api_data = None, api_error = Some msg, api_message = None\<rparr>"

definition succeeded :: "'a \<Rightarrow> 'a ApiResponse" where
  "succeeded d = \<lparr>success = True, api_data = Some d, api_error = None, api_message = None\<rparr>"

section \<open>User service\<close>

definition UserService_create :: "gen \<Rightarrow> store \<Rightarrow> CreateUserInput \<Rightarrow> error + (store \<times> User)" where
  "UserService_create g s d = user_create g s d"

definition UserService_getAll :: "store \<Rightarrow> PaginationParams \<Rightarrow> error + User PaginatedResponse" where
  "UserService_getAll s params =
     (let page = (case pp_page params of None \<Rightarrow> 1 | Some p \<Rightarrow> p);
          limit = (case pp_limit params of None \<Rightarrow> 10 | Some l \<Rightarrow> l);
          skip = (page - 1) * limit
      in case findMany (\<lambda>u. True) Desc user_createdAt skip limit (users s) of
           Inl e \<Rightarrow> Inl e
         | Inr us \<Rightarrow>
             (let total' = count_where (\<lambda>u. True) (users s)
              in Inr \<lparr>data = us,
                      meta = \<lparr>meta_total = total', meta_page = page, meta_limit = limit,
                              meta_totalPages = Math_ceil_div total' limit,
                              meta_hasMore = (page * limit < int total')\<rparr>\<rparr>))"

definition UserService_emailExists :: "store \<Rightarrow> string \<Rightarrow> bool" where
  "UserService_emailExists s email =
     (findUnique (\<lambda>u. user_email u = email) (users s) \<noteq> None)"

definition UserService_usernameExists :: "store \<Rightarrow> string \<Rightarrow> bool" where
  "UserService_usernameExists s username =
     (findUnique (\<lambda>u. user_username u = username) (users s) \<noteq> None)"

section \<open>Post service\<close>

text \<open>The \<open>replies\<close> relation of a comment: the comments whose parent it is.\<close>

definition reply_to :: "Comment \<Rightarrow> Comment \<Rightarrow> bool" where
  "reply_to c r = (comment_parentId r = Some (comment_id c))"

definition PostService_getById :: "store \<Rightarrow> ident \<Rightarrow> PostFull option" where
  "PostService_getById s pid =
     (case findUnique (\<lambda>p. post_id p = pid) (posts s) of
        None \<Rightarrow> None
      | Some p \<Rightarrow>
          Some \<lparr>full_post = p,
                full_author = author_of s (post_authorId p),
                full_comments =
                  map (\<lambda>c. \<lparr>cwr_comment = c,
                             cwr_author = author_of s (comment_authorId c),
                             cwr_replies =
                               map (with_author s)
                                 (findMany_unordered (reply_to c) (comments s))\<rparr>)
                    (orderBy Desc comment_createdAt
                       (filter (\<lambda>c. comment_postId c = post_id p \<and> comment_parentId c = None)
                          (comments s))),
                full_likes = findMany_unordered (\<lambda>l. like_postId l = post_id p) (likes s),
                full_count_likes = count_where (\<lambda>l. like_postId l = post_id p) (likes s),
                full_count_comments =
                  count_where (\<lambda>c. comment_postId c = post_id p) (comments s)\<rparr>)"

definition post_where :: "PostFilters \<Rightarrow> Post \<Rightarrow> bool" where
  "post_where filters p =
     ((if \<not> falsy (filter_authorId filters)
       then Some (post_authorId p) = filter_authorId filters else True)
      \<and> (case filter_published filters of None \<Rightarrow> True | Some b \<Rightarrow> post_published p = b)
      \<and> (if \<not> falsy (filter_search filters)
         then contains_insensitive (post_title p) (the (filter_search filters))
              \<or> contains_insensitive (post_content p) (the (filter_search filters))
         else True))"

definition with_counts :: "store \<Rightarrow> Post \<Rightarrow> PostWithCounts" where
  "with_counts s p =
     \<lparr>pwc_post = p, pwc_author = author_of s (post_authorId p),
      pwc_count_likes = count_where (\<lambda>l. like_postId l = post_id p) (likes s),
      pwc_count_comments = count_where (\<lambda>c. comment_postId c = post_id p) (comments s)\<rparr>"

definition PostService_getAll ::
  "store \<Rightarrow> PaginationParams \<Rightarrow> PostFilters \<Rightarrow> error + PostWithCounts PaginatedResponse" where
  "PostService_getAll s params filters =
     (let page = (case pp_page params of None \<Rightarrow> 1 | Some p \<Rightarrow> p);
          limit = (case pp_limit params of None \<Rightarrow> 10 | Some l \<Rightarrow> l);
          skip = (page - 1) * limit;
          wh = post_where filters
      in case findMany wh Desc post_createdAt skip limit (posts s) of
           Inl e \<Rightarrow> Inl e
         | Inr ps \<Rightarrow>
             (let total' = count_where wh (posts s)
              in Inr \<lparr>data = map (with_counts s) ps,
                      meta = \<lparr>meta_total = total', meta_page = page, meta_limit = limit,
                              meta_totalPages = Math_ceil_div total' limit,
                              meta_hasMore = (page * limit < int total')\<rparr>\<rparr>))"

definition PostService_getFeed ::
  "store \<Rightarrow> PaginationParams \<Rightarrow> error + PostWithCounts PaginatedResponse" where
  "PostService_getFeed s params =
     PostService_getAll s params
       \<lparr>filter_authorId = None, filter_published = Some True, filter_search = None\<rparr>"

definition PostService_isAuthor :: "store \<Rightarrow> ident \<Rightarrow> ident \<Rightarrow> bool" where
  "PostService_isAuthor s postId userId =
     (case findUnique (\<lambda>p. post_id p = postId) (posts s) of
        None \<Rightarrow> False
      | Some p \<Rightarrow> post_authorId p = userId)"

section \<open>Comment service\<close>


definition with_replies :: "store \<Rightarrow> Comment \<Rightarrow> CommentWithReplies" where
  "with_replies s c =
     \<lparr>cwr_comment = c,
      cwr_author = author_of s (comment_authorId c),
      cwr_replies =
        map (with_author s)
          (orderBy Asc comment_createdAt (filter (reply_to c) (comments s)))\<rparr>"

definition CommentService_getById :: "store \<Rightarrow> ident \<Rightarrow> CommentWithReplies option" where
  "CommentService_getById s cid =
     map_option (with_replies s) (findUnique (\<lambda>c. comment_id c = cid) (comments s))"

definition CommentService_getByPost ::
  "store \<Rightarrow> ident \<Rightarrow> PaginationParams \<Rightarrow> error + CommentWithReplies PaginatedResponse" where
  "CommentService_getByPost s postId params =
     (let page = (case pp_page params of None \<Rightarrow> 1 | Some p \<Rightarrow> p);
          limit = (case pp_limit params of None \<Rightarrow> 20 | Some l \<Rightarrow> l);
          skip = (page - 1) * limit;
          wh = (\<lambda>c. comment_postId c = postId \<and> comment_parentId c = None)
      in case findMany wh Desc comment_createdAt skip limit (comments s) of
           Inl e \<Rightarrow> Inl e
         | Inr cs \<Rightarrow>
             (let total' = count_where wh (comments s)
              in Inr \<lparr>data = map (with_replies s) cs,
                      meta = \<lparr>meta_total = total', meta_page = page, meta_limit = limit,
                              meta_totalPages = Math_ceil_div total' limit,
                              meta_hasMore = (page * limit < int total')\<rparr>\<rparr>))"

definition CommentService_getByAuthor ::
  "store \<Rightarrow> ident \<Rightarrow> PaginationParams \<Rightarrow> error + CommentWithAuthor PaginatedResponse" where
  "CommentService_getByAuthor s authorId params =
     (let page = (case pp_page params of None \<Rightarrow> 1 | Some p \<Rightarrow> p);
          limit = (case pp_limit params of None \<Rightarrow> 20 | Some l \<Rightarrow> l);
          skip = (page - 1) * limit;
          wh = (\<lambda>c. comment_authorId c = authorId)
      in case findMany wh Desc comment_createdAt skip limit (comments s) of
           Inl e \<Rightarrow> Inl e
         | Inr cs \<Rightarrow>
             (let total' = count_where wh (comments s)
              in Inr \<lparr>data = map (with_author s) cs,
                      meta = \<lparr>meta_total = total', meta_page = page, meta_limit = limit,
                              meta_totalPages = Math_ceil_div total' limit,
                              meta_hasMore = (page * limit < int total')\<rparr>\<rparr>))"

definition CommentService_isAuthor :: "store \<Rightarrow> ident \<Rightarrow> ident \<Rightarrow> bool" where
  "CommentService_isAuthor s commentId userId =
     (case findUnique (\<lambda>c. comment_id c = commentId) (comments s) of
        None \<Rightarrow> False
      | Some c \<Rightarrow> comment_authorId c = userId)"

section \<open>Like service\<close>

definition LikeService_create :: "gen \<Rightarrow> store \<Rightarrow> CreateLikeInput \<Rightarrow> error + (store \<times> Like)" where
  "LikeService_create g s d = like_create g s d"

definition LikeService_delete :: "store \<Rightarrow> ident \<Rightarrow> ident \<Rightarrow> error + (store \<times> Like)" where
  "LikeService_delete s userId postId = like_delete s userId postId"

definition LikeService_getByUserAndPost :: "store \<Rightarrow> ident \<Rightarrow> ident \<Rightarrow> Like option" where
  "LikeService_getByUserAndPost s userId postId =
     findUnique (\<lambda>l. like_userId l = userId \<and> like_postId l = postId) (likes s)"

definition LikeService_hasLiked :: "store \<Rightarrow> ident \<Rightarrow> ident \<Rightarrow> bool" where
  "LikeService_hasLiked s userId postId =
     (findUnique (\<lambda>l. like_userId l = userId \<and> like_postId l = postId) (likes s) \<noteq> None)"

definition LikeService_toggle ::
  "gen \<Rightarrow> store \<Rightarrow> ident \<Rightarrow> ident \<Rightarrow> error + (store \<times> toggle_result)" where
  "LikeService_toggle g s userId postId =
     (case LikeService_getByUserAndPost s userId postId of
        Some existingLike \<Rightarrow>
          (case LikeService_delete s userId postId of
             Inl e \<Rightarrow> Inl e
           | Inr (s', _) \<Rightarrow> Inr (s', \<lparr>liked = False, like = None\<rparr>))
      | None \<Rightarrow>
          (case LikeService_create g s \<lparr>cl_userId = userId, cl_postId = postId\<rparr> of
             Inl e \<Rightarrow> Inl e
           | Inr (s', l) \<Rightarrow> Inr (s', \<lparr>liked = True, like = Some l\<rparr>)))"

definition LikeService_getByPost ::
  "store \<Rightarrow> ident \<Rightarrow> PaginationParams \<Rightarrow> error + LikeWithUser PaginatedResponse" where
  "LikeService_getByPost s postId params =
     (let page = (case pp_page params of None \<Rightarrow> 1 | Some p \<Rightarrow> p);
          limit = (case pp_limit params of None \<Rightarrow> 50 | Some l \<Rightarrow> l);
          skip = (page - 1) * limit;
          wh = (\<lambda>l. like_postId l = postId)
      in case findMany wh Desc like_createdAt skip limit (likes s) of
           Inl e \<Rightarrow> Inl e
         | Inr ls \<Rightarrow>
             (let total' = count_where wh (likes s)
              in Inr \<lparr>data = map (\<lambda>l. (l, author_of s (like_userId l))) ls,
                      meta = \<lparr>meta_total = total', meta_page = page, meta_limit = limit,
                              meta_totalPages = Math_ceil_div total' limit,
                              meta_hasMore = (page * limit < int total')\<rparr>\<rparr>))"

definition LikeService_getByUser ::
  "store \<Rightarrow> ident \<Rightarrow> PaginationParams \<Rightarrow> error + LikeWithPost PaginatedResponse" where
  "LikeService_getByUser s userId params =
     (let page = (case pp_page params of None \<Rightarrow> 1 | Some p \<Rightarrow> p);
          limit = (case pp_limit params of None \<Rightarrow> 20 | Some l \<Rightarrow> l);
          skip = (page - 1) * limit;
          wh = (\<lambda>l. like_userId l = userId)
      in case findMany wh Desc like_createdAt skip limit (likes s) of
           Inl e \<Rightarrow> Inl e
         | Inr ls \<Rightarrow>
             (let total' = count_where wh (likes s)
              in Inr \<lparr>data = map (\<lambda>l. (l, post_summary_of s (like_postId l))) ls,
                      meta = \<lparr>meta_total = total', meta_page = page, meta_limit = limit,
                              meta_totalPages = Math_ceil_div total' limit,
                              meta_hasMore = (page * limit < int total')\<rparr>\<rparr>))"

definition LikeService_countByPosts :: "store \<Rightarrow> ident list \<Rightarrow> (ident \<rightharpoonup> nat)" where
  "LikeService_countByPosts s postIds =
     (let counts = groupBy_postId (filter (\<lambda>l. like_postId l \<in> set postIds) (likes s));
          countMap = fold (\<lambda>i m. m(i \<mapsto> 0)) postIds Map.empty
      in fold (\<lambda>c m. m(fst c \<mapsto> snd c)) counts countMap)"

definition LikeService_hasLikedPosts :: "store \<Rightarrow> ident \<Rightarrow> ident list \<Rightarrow> (ident \<rightharpoonup> bool)" where
  "LikeService_hasLikedPosts s userId postIds =
     (let ls = map like_postId
                 (findMany_unordered (\<lambda>l. like_userId l = userId \<and> like_postId l \<in> set postIds)
                    (likes s));
          likeMap = fold (\<lambda>i m. m(i \<mapsto> False)) postIds Map.empty
      in fold (\<lambda>p m. m(p \<mapsto> True)) ls likeMap)"

section \<open>Handlers\<close>

text \<open>
  A handler receives the parsed JSON body, or nothing when the body cannot be read; it
  answers every failure of a service with status 500.
\<close>

definition userHandlers_create ::
  "gen \<Rightarrow> store \<Rightarrow> UserCreateBody option \<Rightarrow> store \<times> User Response" where
  "userHandlers_create g s request =
     (case request of
        None \<Rightarrow> (s, jsonResponse (failure ''Failed to create user'') 500)
      | Some b \<Rightarrow>
          if falsy (body_email b) \<or> falsy (body_username b)
          then (s, jsonResponse (failure ''Email and username are required'') 400)
          else
            (let emailExists = UserService_emailExists s (the (body_email b));
                 usernameExists = UserService_usernameExists s (the (body_username b))
             in if emailExists
                then (s, jsonResponse (failure ''Email already in use'') 409)
                else if usernameExists
                then (s, jsonResponse (failure ''Username already taken'') 409)
                else
                  (case UserService_create g s
                          \<lparr>cu_email = the (body_email b), cu_username = the (body_username b),
                           cu_name = body_name b, cu_avatar = body_avatar b,
                           cu_bio = body_bio b\<rparr> of
                     Inl e \<Rightarrow> (s, jsonResponse (failure ''Failed to create user'') 500)
                   | Inr (s', u) \<Rightarrow> (s', jsonResponse (succeeded u) 201))))"

definition likeHandlers_like ::
  "gen \<Rightarrow> store \<Rightarrow> ident \<Rightarrow> LikeBody option \<Rightarrow> store \<times> Like Response" where
  "likeHandlers_like g s postId request =
     (case request of
        None \<Rightarrow> (s, jsonResponse (failure ''Failed to like post'') 500)
      | Some b \<Rightarrow>
          if falsy (body_userId b)
          then (s, jsonResponse (failure ''userId is required'') 400)
          else
            (let alreadyLiked = LikeService_hasLiked s (the (body_userId b)) postId
             in if alreadyLiked
                then (s, jsonResponse (failure ''Post already liked'') 409)
                else
                  (case LikeService_create g s
                          \<lparr>cl_userId = the (body_userId b), cl_postId = postId\<rparr> of
                     Inl e \<Rightarrow> (s, jsonResponse (failure ''Failed to like post'') 500)
                   | Inr (s', l) \<Rightarrow> (s', jsonResponse (succeeded l) 201))))"

section \<open>The store between calls\<close>

text \<open>
  The store a call leaves behind: the one it returns, or the one it started from when it
  throws, since every service here writes at most once.
\<close>

definition store_after :: "store \<Rightarrow> error + (store \<times> 'a) \<Rightarrow> store" where
  "store_after s r = (case r of Inl e \<Rightarrow> s | Inr (s', x) \<Rightarrow> s')"

text \<open>
  The references of the Likes table as an invariant of the store: every like names an
  existing user and an existing post. The inserts above keep it.
\<close>

definition like_references_hold :: "store \<Rightarrow> bool" where
  "like_references_hold s =
     list_all (\<lambda>l. user_exists s (like_userId l) \<and> post_exists s (like_postId l)) (likes s)"

section \<open>The pagination contract\<close>

text \<open>
  The contract of every list operation, in the words of the specification: of the rows
  an operation lists, the page holds those at offset \<open>(page - 1) * limit\<close>, at most
  \<open>limit\<close> of them; \<open>totalPages\<close> is the ceiling of \<open>total / limit\<close> and
  \<open>hasMore\<close> says whether \<open>page * limit < total\<close>.
\<close>

definition spec_page :: "int \<Rightarrow> int \<Rightarrow> 'a list \<Rightarrow> 'a PaginatedResponse" where
  "spec_page page limit rows =
     \<lparr>data = take (nat limit) (drop (nat ((page - 1) * limit)) rows),
      meta = \<lparr>meta_total = length rows, meta_page = page, meta_limit = limit,
              meta_totalPages = Num \<lceil>real (length rows) / real_of_int limit\<rceil>,
              meta_hasMore = (page * limit < int (length rows))\<rparr>\<rparr>"

section \<open>A small store\<close>

text \<open>
  Two users, one post by the first, a comment on it by the second with two replies, and
  one like. The earlier reply was edited at time 40, after the later one was written, and
  the table holds it after the later one.
\<close>

definition ex_gen :: gen where
  "ex_gen = \<lparr>newId = ''n1'', now = 100\<rparr>"

definition ex_alice :: User where
  "ex_alice = \<lparr>user_id = ''u1'', user_email = ''a@x.com'', user_username = ''a'',
               user_name = None, user_avatar = None, user_bio = None,
               user_createdAt = 1, user_updatedAt = 1\<rparr>"

definition ex_bob :: User where
  "ex_bob = \<lparr>user_id = ''u2'', user_email = ''b@x.com'', user_username = ''b'',
             user_name = None, user_avatar = None, user_bio = None,
             user_createdAt = 2, user_updatedAt = 2\<rparr>"

definition ex_post :: Post where
  "ex_post = \<lparr>post_id = ''p1'', post_title = ''Hello'', post_content = ''World'',
              post_imageUrl = None, post_published = True, post_authorId = ''u1'',
              post_createdAt = 5, post_updatedAt = 5\<rparr>"

definition ex_comment :: Comment where
  "ex_comment = \<lparr>comment_id = ''c1'', comment_content = ''first'',
                 comment_authorId = ''u2'', comment_postId = ''p1'',
                 comment_parentId = None, comment_createdAt = 10, comment_updatedAt = 10\<rparr>"

definition ex_reply_late :: Comment where
  "ex_reply_late = \<lparr>comment_id = ''c3'', comment_content = ''later'',
                    comment_authorId = ''u1'', comment_postId = ''p1'',
                    comment_parentId = Some ''c1'', comment_createdAt = 30,
                    comment_updatedAt = 30\<rparr>"

definition ex_reply_early :: Comment where
  "ex_reply_early = \<lparr>comment_id = ''c2'', comment_content = ''earlier'',
                     comment_authorId = ''u1'', comment_postId = ''p1'',
                     comment_parentId = Some ''c1'', comment_createdAt = 20,
                     comment_updatedAt = 40\<rparr>"

definition ex_like :: Like where
  "ex_like = \<lparr>like_id = ''l1'', like_userId = ''u1'', like_postId = ''p1'',
              like_createdAt = 50\<rparr>"

definition ex_store :: store where
  "ex_store = \<lparr>users = [ex_alice, ex_bob], posts = [ex_post],
               comments = [ex_comment, ex_reply_late, ex_reply_early],
               likes = [ex_like]\<rparr>"

text \<open>A request body for creating a user, with the optional fields absent.\<close>

definition ex_body :: "string \<Rightarrow> string option \<Rightarrow> UserCreateBody" where
  "ex_body e n = \<lparr>body_email = Some e, body_username = n, body_name = None,
                  body_avatar = None, body_bio = None\<rparr>"

section \<open>Facts about the store primitives\<close>

lemma findUnique_None_iff: "findUnique P rows = None \<longleftrightarrow> (\<forall>r \<in> set rows. \<not> P r)"
  by (auto simp: findUnique_def find_None_iff)

lemma findUnique_append:
  "findUnique P (xs @ ys) =
     (case findUnique P xs of None \<Rightarrow> findUnique P ys | Some x \<Rightarrow> Some x)"
  unfolding findUnique_def by (induction xs) auto

lemma findUnique_Some_holds: "findUnique P rows = Some r \<Longrightarrow> P r \<and> r \<in> set rows"
  unfolding findUnique_def by (induction rows) (auto split: if_splits)

section \<open>Toggle\<close>

lemma toggle_present:
  assumes "LikeService_getByUserAndPost s u p = Some l"
  shows "LikeService_toggle g s u p =
           Inr (s\<lparr>likes := filter (\<lambda>l. \<not> (like_userId l = u \<and> like_postId l = p)) (likes s)\<rparr>,
                \<lparr>liked = False, like = None\<rparr>)"
  using assms
  by (simp add: LikeService_toggle_def LikeService_delete_def like_delete_def
      LikeService_getByUserAndPost_def)

lemma delete_present:
  assumes "LikeService_getByUserAndPost s u p = Some l"
  shows "LikeService_delete s u p =
           Inr (s\<lparr>likes := filter (\<lambda>l. \<not> (like_userId l = u \<and> like_postId l = p)) (likes s)\<rparr>, l)"
  using assms
  by (simp add: LikeService_delete_def like_delete_def LikeService_getByUserAndPost_def)

lemma create_absent:
  assumes "LikeService_getByUserAndPost s u p = None" "user_exists s u" "post_exists s p"
  shows "LikeService_create g s \<lparr>cl_userId = u, cl_postId = p\<rparr> =
           Inr (s\<lparr>likes := likes s @ [\<lparr>like_id = newId g, like_userId = u,
                                       like_postId = p, like_createdAt = now g\<rparr>]\<rparr>,
                \<lparr>like_id = newId g, like_userId = u, like_postId = p, like_createdAt = now g\<rparr>)"
  using assms
  by (simp add: LikeService_create_def like_create_def Let_def LikeService_getByUserAndPost_def)

lemma create_unreferenced:
  assumes "LikeService_getByUserAndPost s u p = None" "\<not> (user_exists s u \<and> post_exists s p)"
  shows "LikeService_create g s \<lparr>cl_userId = u, cl_postId = p\<rparr> = Inl ForeignKeyViolation"
  using assms
  by (auto simp: LikeService_create_def like_create_def Let_def LikeService_getByUserAndPost_def)

lemma toggle_absent:
  assumes "LikeService_getByUserAndPost s u p = None" "user_exists s u" "post_exists s p"
  shows "LikeService_toggle g s u p =
           Inr (s\<lparr>likes := likes s @ [\<lparr>like_id = newId g, like_userId = u,
                                       like_postId = p, like_createdAt = now g\<rparr>]\<rparr>,
                \<lparr>liked = True,
                 like = Some \<lparr>like_id = newId g, like_userId = u,
                              like_postId = p, like_createdAt = now g\<rparr>\<rparr>)"
  using assms(1) create_absent [OF assms, of g]
  by (simp add: LikeService_toggle_def)

lemma toggle_unreferenced:
  assumes "LikeService_getByUserAndPost s u p = None" "\<not> (user_exists s u \<and> post_exists s p)"
  shows "LikeService_toggle g s u p = Inl ForeignKeyViolation"
  using assms(1) create_unreferenced [OF assms, of g]
  by (simp add: LikeService_toggle_def)

lemma hasLiked_iff: "LikeService_hasLiked s u p \<longleftrightarrow> LikeService_getByUserAndPost s u p \<noteq> None"
  by (simp add: LikeService_hasLiked_def LikeService_getByUserAndPost_def)

lemma getByUserAndPost_after_delete:
  "LikeService_getByUserAndPost
     (s\<lparr>likes := filter (\<lambda>l. \<not> (like_userId l = u \<and> like_postId l = p)) (likes s)\<rparr>) u p = None"
  by (simp add: LikeService_getByUserAndPost_def findUnique_None_iff)

lemma getByUserAndPost_after_create:
  assumes "LikeService_getByUserAndPost s u p = None"
  shows "LikeService_getByUserAndPost
           (s\<lparr>likes := likes s @ [\<lparr>like_id = i, like_userId = u, like_postId = p,
                                    like_createdAt = t\<rparr>]\<rparr>) u p
         = Some \<lparr>like_id = i, like_userId = u, like_postId = p, like_createdAt = t\<rparr>"
  using assms
  by (simp add: LikeService_getByUserAndPost_def findUnique_append) (simp add: findUnique_def)

lemma exists_likes_update [simp]:
  "user_exists (s\<lparr>likes := ls\<rparr>) u = user_exists s u"
  "post_exists (s\<lparr>likes := ls\<rparr>) p = post_exists s p"
  by (simp_all add: user_exists_def post_exists_def)

lemma present_is_referenced:
  assumes "like_references_hold s" "LikeService_getByUserAndPost s u p = Some l"
  shows "user_exists s u \<and> post_exists s p"
proof -
  from assms(2) have "like_userId l = u \<and> like_postId l = p" "l \<in> set (likes s)"
    using findUnique_Some_holds [of "\<lambda>l. like_userId l = u \<and> like_postId l = p" "likes s" l]
    by (simp_all add: LikeService_getByUserAndPost_def)
  with assms(1) show ?thesis
    by (auto simp: like_references_hold_def list_all_iff)
qed

lemma references_kept_by_create:
  assumes "like_references_hold s" "like_create g s d = Inr (s', l)"
  shows "like_references_hold s'"
  using assms
  by (auto simp: like_create_def Let_def like_references_hold_def list_all_iff
      split: if_splits)

lemma references_kept_by_delete:
  assumes "like_references_hold s" "like_delete s u p = Inr (s', l)"
  shows "like_references_hold s'"
  using assms
  by (auto simp: like_delete_def like_references_hold_def list_all_iff split: option.splits)

text \<open>
  C2, as amended. \<open>toggle\<close> reads the like of the pair with \<open>getByUserAndPost\<close>.
  When one is there, it deletes it and returns \<open>liked = False\<close> without a like: the
  store it leaves is the one \<open>delete\<close> leaves, the old store without the likes of the
  pair and otherwise as it was. When none is there and \<open>userId\<close> names an existing
  user and \<open>postId\<close> an existing post, it creates the like of the pair and returns
  \<open>liked = True\<close> together with the created like: the store it leaves is the one
  \<open>create\<close> leaves, the old store with that like added. When none is there and the
  user or the post does not exist, the insert is refused and \<open>toggle\<close> fails.
\<close>

theorem toggle_reads_then_flips:
  "(\<forall>l. LikeService_getByUserAndPost s u p = Some l \<longrightarrow>
      LikeService_toggle g s u p
        = Inr (s\<lparr>likes := filter (\<lambda>l. \<not> (like_userId l = u \<and> like_postId l = p)) (likes s)\<rparr>,
               \<lparr>liked = False, like = None\<rparr>)
      \<and> LikeService_delete s u p
        = Inr (s\<lparr>likes := filter (\<lambda>l. \<not> (like_userId l = u \<and> like_postId l = p)) (likes s)\<rparr>, l)
      \<and> LikeService_getByUserAndPost
          (s\<lparr>likes := filter (\<lambda>l. \<not> (like_userId l = u \<and> like_postId l = p)) (likes s)\<rparr>) u p
        = None)
   \<and> (LikeService_getByUserAndPost s u p = None \<and> user_exists s u \<and> post_exists s p \<longrightarrow>
      LikeService_toggle g s u p
        = Inr (s\<lparr>likes := likes s @ [\<lparr>like_id = newId g, like_userId = u,
                                       like_postId = p, like_createdAt = now g\<rparr>]\<rparr>,
               \<lparr>liked = True,
                like = Some \<lparr>like_id = newId g, like_userId = u,
                             like_postId = p, like_createdAt = now g\<rparr>\<rparr>)
      \<and> LikeService_create g s \<lparr>cl_userId = u, cl_postId = p\<rparr>
        = Inr (s\<lparr>likes := likes s @ [\<lparr>like_id = newId g, like_userId = u,
                                       like_postId = p, like_createdAt = now g\<rparr>]\<rparr>,
               \<lparr>like_id = newId g, like_userId = u, like_postId = p, like_createdAt = now g\<rparr>)
      \<and> LikeService_getByUserAndPost
          (s\<lparr>likes := likes s @ [\<lparr>like_id = newId g, like_userId = u,
                                  like_postId = p, like_createdAt = now g\<rparr>]\<rparr>) u p
        = Some \<lparr>like_id = newId g, like_userId = u, like_postId = p, like_createdAt = now g\<rparr>)
   \<and> (LikeService_getByUserAndPost s u p = None \<and> \<not> (user_exists s u \<and> post_exists s p) \<longrightarrow>
      LikeService_toggle g s u p = Inl ForeignKeyViolation)"
proof (intro conjI allI impI)
  fix l assume ex: "LikeService_getByUserAndPost s u p = Some l"
  show "LikeService_toggle g s u p
        = Inr (s\<lparr>likes := filter (\<lambda>l. \<not> (like_userId l = u \<and> like_postId l = p)) (likes s)\<rparr>,
               \<lparr>liked = False, like = None\<rparr>)"
    using ex by (rule toggle_present)
  show "LikeService_delete s u p
        = Inr (s\<lparr>likes := filter (\<lambda>l. \<not> (like_userId l = u \<and> like_postId l = p)) (likes s)\<rparr>, l)"
    using ex by (rule delete_present)
  show "LikeService_getByUserAndPost
          (s\<lparr>likes := filter (\<lambda>l. \<not> (like_userId l = u \<and> like_postId l = p)) (likes s)\<rparr>) u p
        = None"
    by (rule getByUserAndPost_after_delete)
next
  assume a: "LikeService_getByUserAndPost s u p = None \<and> user_exists s u \<and> post_exists s p"
  then have ab: "LikeService_getByUserAndPost s u p = None"
    and ue: "user_exists s u" and pe: "post_exists s p"
    by simp_all
  show "LikeService_toggle g s u p
        = Inr (s\<lparr>likes := likes s @ [\<lparr>like_id = newId g, like_userId = u,
                                       like_postId = p, like_createdAt = now g\<rparr>]\<rparr>,
               \<lparr>liked = True,
                like = Some \<lparr>like_id = newId g, like_userId = u,
                             like_postId = p, like_createdAt = now g\<rparr>\<rparr>)"
    using ab ue pe by (rule toggle_absent)
  show "LikeService_create g s \<lparr>cl_userId = u, cl_postId = p\<rparr>
        = Inr (s\<lparr>likes := likes s @ [\<lparr>like_id = newId g, like_userId = u,
                                       like_postId = p, like_createdAt = now g\<rparr>]\<rparr>,
               \<lparr>like_id = newId g, like_userId = u, like_postId = p, like_createdAt = now g\<rparr>)"
    using ab ue pe by (rule create_absent)
  show "LikeService_getByUserAndPost
          (s\<lparr>likes := likes s @ [\<lparr>like_id = newId g, like_userId = u,
                                  like_postId = p, like_createdAt = now g\<rparr>]\<rparr>) u p
        = Some \<lparr>like_id = newId g, like_userId = u, like_postId = p, like_createdAt = now g\<rparr>"
    using ab by (rule getByUserAndPost_after_create)
next
  assume "LikeService_getByUserAndPost s u p = None \<and> \<not> (user_exists s u \<and> post_exists s p)"
  then show "LikeService_toggle g s u p = Inl ForeignKeyViolation"
    using toggle_unreferenced [of s u p g] by blast
qed


theorem toggle_reads_then_flips_witness:
  "LikeService_getByUserAndPost ex_store ''u1'' ''p1'' = Some ex_like
   \<and> LikeService_toggle ex_gen ex_store ''u1'' ''p1''
       = Inr (ex_store\<lparr>likes := []\<rparr>, \<lparr>liked = False, like = None\<rparr>)
   \<and> LikeService_getByUserAndPost ex_store ''u2'' ''p1'' = None
   \<and> LikeService_toggle ex_gen ex_store ''u2'' ''p1''
       = Inr (ex_store\<lparr>likes := [ex_like, \<lparr>like_id = ''n1'', like_userId = ''u2'',
                                            like_postId = ''p1'', like_createdAt = 100\<rparr>]\<rparr>,
              \<lparr>liked = True,
               like = Some \<lparr>like_id = ''n1'', like_userId = ''u2'',
                            like_postId = ''p1'', like_createdAt = 100\<rparr>\<rparr>)"
proof -
  have present: "LikeService_getByUserAndPost ex_store ''u1'' ''p1'' = Some ex_like"
    by (simp add: LikeService_getByUserAndPost_def findUnique_def ex_store_def ex_like_def)
  have absent: "LikeService_getByUserAndPost ex_store ''u2'' ''p1'' = None"
    by (simp add: LikeService_getByUserAndPost_def findUnique_def ex_store_def ex_like_def)
  have ue: "user_exists ex_store ''u2''"
    by (simp add: user_exists_def findUnique_def ex_store_def ex_alice_def ex_bob_def)
  have pe: "post_exists ex_store ''p1''"
    by (simp add: post_exists_def findUnique_def ex_store_def ex_post_def)
  have rest: "filter (\<lambda>l. \<not> (like_userId l = ''u1'' \<and> like_postId l = ''p1'')) (likes ex_store) = []"
    by (simp add: ex_store_def ex_like_def)
  have likes0: "likes ex_store = [ex_like]"
    by (simp add: ex_store_def)
  from toggle_reads_then_flips [of ex_store "''u1''" "''p1''" ex_gen] present
  have "LikeService_toggle ex_gen ex_store ''u1'' ''p1''
       = Inr (ex_store\<lparr>likes := filter (\<lambda>l. \<not> (like_userId l = ''u1'' \<and> like_postId l = ''p1''))
                                       (likes ex_store)\<rparr>,
              \<lparr>liked = False, like = None\<rparr>)"
    by blast
  then have first: "LikeService_toggle ex_gen ex_store ''u1'' ''p1''
       = Inr (ex_store\<lparr>likes := []\<rparr>, \<lparr>liked = False, like = None\<rparr>)"
    by (simp only: rest)
  from toggle_reads_then_flips [of ex_store "''u2''" "''p1''" ex_gen] absent ue pe
  have "LikeService_toggle ex_gen ex_store ''u2'' ''p1''
        = Inr (ex_store\<lparr>likes := likes ex_store @ [\<lparr>like_id = newId ex_gen, like_userId = ''u2'',
                                       like_postId = ''p1'', like_createdAt = now ex_gen\<rparr>]\<rparr>,
               \<lparr>liked = True,
                like = Some \<lparr>like_id = newId ex_gen, like_userId = ''u2'',
                             like_postId = ''p1'', like_createdAt = now ex_gen\<rparr>\<rparr>)"
    by blast
  then have second: "LikeService_toggle ex_gen ex_store ''u2'' ''p1''
       = Inr (ex_store\<lparr>likes := [ex_like, \<lparr>like_id = ''n1'', like_userId = ''u2'',
                                            like_postId = ''p1'', like_createdAt = 100\<rparr>]\<rparr>,
              \<lparr>liked = True,
               like = Some \<lparr>like_id = ''n1'', like_userId = ''u2'',
                            like_postId = ''p1'', like_createdAt = 100\<rparr>\<rparr>)"
    by (simp add: likes0 ex_gen_def)
  from present first absent second show ?thesis by (intro conjI)
qed

text \<open>
  The claim as first stated fails for a \<open>userId\<close> that names no user: no like of the
  pair exists, and \<open>toggle\<close> creates none and returns no result.
\<close>

theorem toggle_reads_then_flips_counterexample:
  "LikeService_getByUserAndPost ex_store ''ghost'' ''p1'' = None
   \<and> LikeService_toggle ex_gen ex_store ''ghost'' ''p1'' = Inl ForeignKeyViolation"
proof (intro conjI)
  show absent: "LikeService_getByUserAndPost ex_store ''ghost'' ''p1'' = None"
    by (simp add: LikeService_getByUserAndPost_def findUnique_def ex_store_def ex_like_def)
  have "\<not> user_exists ex_store ''ghost''"
    by (simp add: user_exists_def findUnique_def ex_store_def ex_alice_def ex_bob_def)
  with absent show "LikeService_toggle ex_gen ex_store ''ghost'' ''p1'' = Inl ForeignKeyViolation"
    by (simp add: LikeService_toggle_def LikeService_create_def like_create_def
        LikeService_getByUserAndPost_def)
qed

text \<open>
  C3. In a store whose likes name existing users and posts, two toggles of the same pair
  in a row, with nothing in between, leave the pair liked exactly when it was liked
  before them; a toggle that throws leaves the store as it was. When the user and the
  post exist both toggles succeed and the second reports the opposite of the first; when
  one of them does not exist the pair is not liked, both toggles fail and nothing
  changes.
\<close>

theorem toggle_twice_restores:
  assumes "like_references_hold s"
  shows "LikeService_hasLiked
           (store_after (store_after s (LikeService_toggle g1 s u p))
              (LikeService_toggle g2 (store_after s (LikeService_toggle g1 s u p)) u p)) u p
         = LikeService_hasLiked s u p
       \<and> (user_exists s u \<and> post_exists s p \<longrightarrow>
            (\<exists>s1 r1 s2 r2.
               LikeService_toggle g1 s u p = Inr (s1, r1)
               \<and> LikeService_toggle g2 s1 u p = Inr (s2, r2)
               \<and> liked r2 = (\<not> liked r1)
               \<and> LikeService_hasLiked s2 u p = LikeService_hasLiked s u p))
       \<and> (\<not> (user_exists s u \<and> post_exists s p) \<longrightarrow>
            LikeService_toggle g1 s u p = Inl ForeignKeyViolation
            \<and> LikeService_toggle g2 s u p = Inl ForeignKeyViolation
            \<and> \<not> LikeService_hasLiked s u p)"
proof (cases "LikeService_getByUserAndPost s u p")
  case (Some l)
  let ?s1 = "s\<lparr>likes := filter (\<lambda>l. \<not> (like_userId l = u \<and> like_postId l = p)) (likes s)\<rparr>"
  let ?l = "\<lparr>like_id = newId g2, like_userId = u, like_postId = p, like_createdAt = now g2\<rparr>"
  let ?s2 = "?s1\<lparr>likes := likes ?s1 @ [?l]\<rparr>"
  from assms Some have refs: "user_exists s u \<and> post_exists s p"
    by (rule present_is_referenced)
  have t1: "LikeService_toggle g1 s u p = Inr (?s1, \<lparr>liked = False, like = None\<rparr>)"
    using Some by (rule toggle_present)
  have mid: "LikeService_getByUserAndPost ?s1 u p = None"
    by (rule getByUserAndPost_after_delete)
  have t2: "LikeService_toggle g2 ?s1 u p = Inr (?s2, \<lparr>liked = True, like = Some ?l\<rparr>)"
    using mid refs by (intro toggle_absent) simp_all
  have after: "LikeService_getByUserAndPost ?s2 u p = Some ?l"
    using mid by (rule getByUserAndPost_after_create)
  have before: "LikeService_hasLiked s u p"
    using Some by (simp add: hasLiked_iff)
  have final: "LikeService_hasLiked ?s2 u p"
    using after by (simp add: hasLiked_iff)
  have sa: "store_after s (LikeService_toggle g1 s u p) = ?s1"
    by (simp only: t1 store_after_def sum.case prod.case)
  have sb: "store_after ?s1 (LikeService_toggle g2 ?s1 u p) = ?s2"
    by (simp only: t2 store_after_def sum.case prod.case)
  show ?thesis
  proof (intro conjI impI)
    show "LikeService_hasLiked
           (store_after (store_after s (LikeService_toggle g1 s u p))
              (LikeService_toggle g2 (store_after s (LikeService_toggle g1 s u p)) u p)) u p
         = LikeService_hasLiked s u p"
      using before final by (simp only: sa sb)
    show "\<exists>s1 r1 s2 r2.
               LikeService_toggle g1 s u p = Inr (s1, r1)
               \<and> LikeService_toggle g2 s1 u p = Inr (s2, r2)
               \<and> liked r2 = (\<not> liked r1)
               \<and> LikeService_hasLiked s2 u p = LikeService_hasLiked s u p"
      proof -
        from before final
        have "LikeService_hasLiked ?s2 u p = LikeService_hasLiked s u p"
          by simp
        moreover have "liked \<lparr>liked = True, like = Some ?l\<rparr> = (\<not> liked \<lparr>liked = False, like = None :: Like option\<rparr>)"
          by simp
        ultimately show ?thesis
          using t1 t2 by blast
      qed
    show "LikeService_toggle g1 s u p = Inl ForeignKeyViolation"
      if "\<not> (user_exists s u \<and> post_exists s p)"
      using that refs by simp
    show "LikeService_toggle g2 s u p = Inl ForeignKeyViolation"
      if "\<not> (user_exists s u \<and> post_exists s p)"
      using that refs by simp
    show "\<not> LikeService_hasLiked s u p"
      if "\<not> (user_exists s u \<and> post_exists s p)"
      using that refs by simp
  qed
next
  case None
  have before: "\<not> LikeService_hasLiked s u p"
    using None by (simp add: hasLiked_iff)
  show ?thesis
  proof (cases "user_exists s u \<and> post_exists s p")
    case True
    let ?l = "\<lparr>like_id = newId g1, like_userId = u, like_postId = p, like_createdAt = now g1\<rparr>"
    let ?s1 = "s\<lparr>likes := likes s @ [?l]\<rparr>"
    let ?s2 = "?s1\<lparr>likes := filter (\<lambda>l. \<not> (like_userId l = u \<and> like_postId l = p)) (likes ?s1)\<rparr>"
    have t1: "LikeService_toggle g1 s u p = Inr (?s1, \<lparr>liked = True, like = Some ?l\<rparr>)"
      using None True by (intro toggle_absent) simp_all
    have "LikeService_getByUserAndPost ?s1 u p = Some ?l"
      using None by (rule getByUserAndPost_after_create)
    then have t2: "LikeService_toggle g2 ?s1 u p = Inr (?s2, \<lparr>liked = False, like = None\<rparr>)"
      by (rule toggle_present)
    have "LikeService_getByUserAndPost ?s2 u p = None"
      by (rule getByUserAndPost_after_delete)
    then have final: "\<not> LikeService_hasLiked ?s2 u p"
      by (simp add: hasLiked_iff)
    have sa: "store_after s (LikeService_toggle g1 s u p) = ?s1"
      by (simp only: t1 store_after_def sum.case prod.case)
    have sb: "store_after ?s1 (LikeService_toggle g2 ?s1 u p) = ?s2"
      by (simp only: t2 store_after_def sum.case prod.case)
    show ?thesis
    proof (intro conjI impI)
      show "LikeService_hasLiked
           (store_after (store_after s (LikeService_toggle g1 s u p))
              (LikeService_toggle g2 (store_after s (LikeService_toggle g1 s u p)) u p)) u p
         = LikeService_hasLiked s u p"
        using before final by (simp only: sa sb)
      show "\<exists>s1 r1 s2 r2.
               LikeService_toggle g1 s u p = Inr (s1, r1)
               \<and> LikeService_toggle g2 s1 u p = Inr (s2, r2)
               \<and> liked r2 = (\<not> liked r1)
               \<and> LikeService_hasLiked s2 u p = LikeService_hasLiked s u p"
      proof -
        from before final
        have "LikeService_hasLiked ?s2 u p = LikeService_hasLiked s u p"
          by simp
        moreover have "liked \<lparr>liked = False, like = None :: Like option\<rparr> = (\<not> liked \<lparr>liked = True, like = Some ?l\<rparr>)"
          by simp
        ultimately show ?thesis
          using t1 t2 by blast
      qed
      show "LikeService_toggle g1 s u p = Inl ForeignKeyViolation"
        if "\<not> (user_exists s u \<and> post_exists s p)"
        using that True by simp
      show "LikeService_toggle g2 s u p = Inl ForeignKeyViolation"
        if "\<not> (user_exists s u \<and> post_exists s p)"
        using that True by simp
      show "\<not> LikeService_hasLiked s u p"
        if "\<not> (user_exists s u \<and> post_exists s p)"
        by (rule before)
    qed
  next
    case False
    have t1: "LikeService_toggle g1 s u p = Inl ForeignKeyViolation"
      using None False by (rule toggle_unreferenced)
    have t2: "LikeService_toggle g2 s u p = Inl ForeignKeyViolation"
      using None False by (rule toggle_unreferenced)
    have sa: "store_after s (LikeService_toggle g1 s u p) = s"
      by (simp only: t1 store_after_def sum.case prod.case)
    have sb: "store_after s (LikeService_toggle g2 s u p) = s"
      by (simp only: t2 store_after_def sum.case prod.case)
    show ?thesis
    proof (intro conjI impI)
      show "LikeService_hasLiked
           (store_after (store_after s (LikeService_toggle g1 s u p))
              (LikeService_toggle g2 (store_after s (LikeService_toggle g1 s u p)) u p)) u p
         = LikeService_hasLiked s u p"
        by (simp only: sa sb)
      show "\<exists>s1 r1 s2 r2.
               LikeService_toggle g1 s u p = Inr (s1, r1)
               \<and> LikeService_toggle g2 s1 u p = Inr (s2, r2)
               \<and> liked r2 = (\<not> liked r1)
               \<and> LikeService_hasLiked s2 u p = LikeService_hasLiked s u p"
        if "user_exists s u \<and> post_exists s p"
        using that False by simp
      show "LikeService_toggle g1 s u p = Inl ForeignKeyViolation"
        by (rule t1)
      show "LikeService_toggle g2 s u p = Inl ForeignKeyViolation"
        by (rule t2)
      show "\<not> LikeService_hasLiked s u p"
        by (rule before)
    qed
  qed
qed

theorem toggle_twice_restores_witness:
  "like_references_hold ex_store
   \<and> LikeService_hasLiked ex_store ''u1'' ''p1''
   \<and> LikeService_hasLiked
       (store_after (store_after ex_store (LikeService_toggle ex_gen ex_store ''u1'' ''p1''))
          (LikeService_toggle ex_gen
             (store_after ex_store (LikeService_toggle ex_gen ex_store ''u1'' ''p1''))
             ''u1'' ''p1'')) ''u1'' ''p1''
   \<and> LikeService_toggle ex_gen ex_store ''ghost'' ''p1'' = Inl ForeignKeyViolation"
proof -
  have wf: "like_references_hold ex_store"
    by (simp add: like_references_hold_def user_exists_def post_exists_def findUnique_def
        ex_store_def ex_like_def ex_alice_def ex_post_def)
  have liked0: "LikeService_hasLiked ex_store ''u1'' ''p1''"
    by (simp add: LikeService_hasLiked_def findUnique_def ex_store_def ex_like_def)
  have ghost: "\<not> (user_exists ex_store ''ghost'' \<and> post_exists ex_store ''p1'')"
    by (simp add: user_exists_def findUnique_def ex_store_def ex_alice_def ex_bob_def)
  note t1 = toggle_twice_restores [OF wf, of ex_gen "''u1''" "''p1''" ex_gen]
  note t2 = toggle_twice_restores [OF wf, of ex_gen "''ghost''" "''p1''" ex_gen]
  from t1 liked0 have a: "LikeService_hasLiked
       (store_after (store_after ex_store (LikeService_toggle ex_gen ex_store ''u1'' ''p1''))
          (LikeService_toggle ex_gen
             (store_after ex_store (LikeService_toggle ex_gen ex_store ''u1'' ''p1''))
             ''u1'' ''p1'')) ''u1'' ''p1''"
    by blast
  from t2 ghost have b: "LikeService_toggle ex_gen ex_store ''ghost'' ''p1'' = Inl ForeignKeyViolation"
    by blast
  from wf liked0 a b show ?thesis by (intro conjI)
qed

section \<open>Pagination\<close>

lemma findMany_nonneg:
  assumes "0 \<le> skip" "0 \<le> tk"
  shows "findMany P dir key skip tk rows
         = Inr (take (nat tk) (drop (nat skip) (orderBy dir key (filter P rows))))"
  using assms by (simp add: findMany_def Let_def)

lemma findMany_page:
  assumes "0 < page" "0 < limit"
  shows "findMany P dir key ((page - 1) * limit) limit rows
         = Inr (take (nat limit) (drop (nat ((page - 1) * limit)) (orderBy dir key (filter P rows))))"
proof (rule findMany_nonneg)
  show "0 \<le> (page - 1) * limit"
    using assms by (simp add: zero_le_mult_iff)
  show "0 \<le> limit"
    using assms by simp
qed

lemma length_orderBy: "length (orderBy dir key rows) = length rows"
  by (cases dir) (simp_all add: orderBy_def)

lemma Math_ceil_div_pos:
  assumes "0 < limit"
  shows "Math_ceil_div n limit = Num \<lceil>real n / real_of_int limit\<rceil>"
proof -
  have "\<lceil>real_of_int (int n) / real_of_int limit\<rceil> = - (- int n div limit)"
    by (rule ceiling_divide_eq_div)
  then show ?thesis using assms by (simp add: Math_ceil_div_def)
qed

lemma users_page:
  assumes "0 < page" "0 < limit" "pp_page params = Some page" "pp_limit params = Some limit"
  shows "UserService_getAll s params
         = Inr (spec_page page limit (orderBy Desc user_createdAt (users s)))"
  using assms
  by (simp add: UserService_getAll_def Let_def findMany_page spec_page_def count_where_def
      Math_ceil_div_pos length_orderBy)

lemma posts_page:
  assumes "0 < page" "0 < limit" "pp_page params = Some page" "pp_limit params = Some limit"
  shows "PostService_getAll s params filters
         = Inr (spec_page page limit
                  (map (with_counts s)
                     (orderBy Desc post_createdAt (filter (post_where filters) (posts s)))))"
  using assms
  by (simp add: PostService_getAll_def Let_def findMany_page spec_page_def count_where_def
      Math_ceil_div_pos length_orderBy take_map drop_map)


lemma comments_by_post_page:
  assumes "0 < page" "0 < limit" "pp_page params = Some page" "pp_limit params = Some limit"
  shows "CommentService_getByPost s postId params
         = Inr (spec_page page limit
                  (map (with_replies s)
                     (orderBy Desc comment_createdAt
                        (filter (\<lambda>c. comment_postId c = postId \<and> comment_parentId c = None)
                           (comments s)))))"
  using assms
  by (simp add: CommentService_getByPost_def Let_def findMany_page spec_page_def count_where_def
      Math_ceil_div_pos length_orderBy take_map drop_map)

lemma comments_by_author_page:
  assumes "0 < page" "0 < limit" "pp_page params = Some page" "pp_limit params = Some limit"
  shows "CommentService_getByAuthor s authorId params
         = Inr (spec_page page limit
                  (map (with_author s)
                     (orderBy Desc comment_createdAt
                        (filter (\<lambda>c. comment_authorId c = authorId) (comments s)))))"
  using assms
  by (simp add: CommentService_getByAuthor_def Let_def findMany_page spec_page_def count_where_def
      Math_ceil_div_pos length_orderBy take_map drop_map)

lemma likes_by_post_page:
  assumes "0 < page" "0 < limit" "pp_page params = Some page" "pp_limit params = Some limit"
  shows "LikeService_getByPost s postId params
         = Inr (spec_page page limit
                  (map (\<lambda>l. (l, author_of s (like_userId l)))
                     (orderBy Desc like_createdAt
                        (filter (\<lambda>l. like_postId l = postId) (likes s)))))"
  using assms
  by (simp add: LikeService_getByPost_def Let_def findMany_page spec_page_def count_where_def
      Math_ceil_div_pos length_orderBy take_map drop_map)

lemma likes_by_user_page:
  assumes "0 < page" "0 < limit" "pp_page params = Some page" "pp_limit params = Some limit"
  shows "LikeService_getByUser s userId params
         = Inr (spec_page page limit
                  (map (\<lambda>l. (l, post_summary_of s (like_postId l)))
                     (orderBy Desc like_createdAt
                        (filter (\<lambda>l. like_userId l = userId) (likes s)))))"
  using assms
  by (simp add: LikeService_getByUser_def Let_def findMany_page spec_page_def count_where_def
      Math_ceil_div_pos length_orderBy take_map drop_map)

text \<open>
  C1. For positive \<open>page\<close> and \<open>limit\<close>, each of the six list operations succeeds
  and returns the page of the specification over its own rows (filtered, newest first,
  with the relations it includes): the rows at offset \<open>(page - 1) * limit\<close>, at most
  \<open>limit\<close> of them, \<open>totalPages = \<lceil>total / limit\<rceil>\<close> and
  \<open>hasMore = (page * limit < total)\<close>.
\<close>

theorem pagination_contract:
  assumes "0 < page" and "0 < limit"
    and "pp_page params = Some page" and "pp_limit params = Some limit"
  shows
    "UserService_getAll s params
       = Inr (spec_page page limit (orderBy Desc user_createdAt (users s)))
     \<and> PostService_getAll s params filters
       = Inr (spec_page page limit
                (map (with_counts s)
                   (orderBy Desc post_createdAt (filter (post_where filters) (posts s)))))
     \<and> CommentService_getByPost s postId params
       = Inr (spec_page page limit
                (map (with_replies s)
                   (orderBy Desc comment_createdAt
                      (filter (\<lambda>c. comment_postId c = postId \<and> comment_parentId c = None)
                         (comments s)))))
     \<and> CommentService_getByAuthor s authorId params
       = Inr (spec_page page limit
                (map (with_author s)
                   (orderBy Desc comment_createdAt
                      (filter (\<lambda>c. comment_authorId c = authorId) (comments s)))))
     \<and> LikeService_getByPost s postId params
       = Inr (spec_page page limit
                (map (\<lambda>l. (l, author_of s (like_userId l)))
                   (orderBy Desc like_createdAt
                      (filter (\<lambda>l. like_postId l = postId) (likes s)))))
     \<and> LikeService_getByUser s userId params
       = Inr (spec_page page limit
                (map (\<lambda>l. (l, post_summary_of s (like_postId l)))
                   (orderBy Desc like_createdAt
                      (filter (\<lambda>l. like_userId l = userId) (likes s)))))"
  using users_page [OF assms] posts_page [OF assms] comments_by_post_page [OF assms]
    comments_by_author_page [OF assms] likes_by_post_page [OF assms]
    likes_by_user_page [OF assms]
  by (intro conjI)

theorem pagination_contract_witness:
  "UserService_getAll ex_store \<lparr>pp_page = Some 2, pp_limit = Some 1, pp_cursor = None\<rparr>
     = Inr \<lparr>data = [ex_alice],
            meta = \<lparr>meta_total = 2, meta_page = 2, meta_limit = 1,
                    meta_totalPages = Num 2, meta_hasMore = False\<rparr>\<rparr>
   \<and> LikeService_getByPost ex_store ''p1'' \<lparr>pp_page = Some 1, pp_limit = Some 3, pp_cursor = None\<rparr>
     = Inr \<lparr>data = [(ex_like, Some ex_alice)],
            meta = \<lparr>meta_total = 1, meta_page = 1, meta_limit = 3,
                    meta_totalPages = Num 1, meta_hasMore = False\<rparr>\<rparr>"
proof -
  have rows: "orderBy Desc user_createdAt (users ex_store) = [ex_bob, ex_alice]"
    by (simp add: orderBy_def ex_store_def ex_alice_def ex_bob_def)
  have lrows: "map (\<lambda>l. (l, author_of ex_store (like_userId l)))
                 (orderBy Desc like_createdAt
                    (filter (\<lambda>l. like_postId l = ''p1'') (likes ex_store)))
               = [(ex_like, Some ex_alice)]"
    by (simp add: orderBy_def ex_store_def ex_like_def author_of_def findUnique_def
        ex_alice_def)
  have a: "UserService_getAll ex_store \<lparr>pp_page = Some 2, pp_limit = Some 1, pp_cursor = None\<rparr>
           = Inr (spec_page 2 1 [ex_bob, ex_alice])"
    using pagination_contract [of 2 1 "\<lparr>pp_page = Some 2, pp_limit = Some 1, pp_cursor = None\<rparr>"
        ex_store] rows
    by simp
  have b: "LikeService_getByPost ex_store ''p1''
             \<lparr>pp_page = Some 1, pp_limit = Some 3, pp_cursor = None\<rparr>
           = Inr (spec_page 1 3 [(ex_like, Some ex_alice)])"
    using pagination_contract [of 1 3 "\<lparr>pp_page = Some 1, pp_limit = Some 3, pp_cursor = None\<rparr>"
        ex_store _ "''p1''"] lrows
    by simp
  have third: "\<lceil>(1::real) / 3\<rceil> = 1"
    using ceiling_divide_eq_div [of 1 3, where ?'a = real] by simp
  show ?thesis
    unfolding a b by (simp add: spec_page_def third)
qed

section \<open>Batch queries\<close>

lemma fold_set_const:
  "fold (\<lambda>i m. m(i \<mapsto> v)) ids m0 k = (if k \<in> set ids then Some v else m0 k)"
  by (induction ids arbitrary: m0) auto

lemma fold_set_pairs_notin:
  "k \<notin> fst ` set cs \<Longrightarrow> fold (\<lambda>c m. m(fst c \<mapsto> snd c)) cs m0 k = m0 k"
  by (induction cs arbitrary: m0) auto

lemma fold_set_pairs_in:
  "distinct (map fst cs) \<Longrightarrow> (k, v) \<in> set cs \<Longrightarrow>
   fold (\<lambda>c m. m(fst c \<mapsto> snd c)) cs m0 k = Some v"
proof (induction cs arbitrary: m0)
  case Nil
  then show ?case by simp
next
  case (Cons c cs)
  show ?case
  proof (cases "(k, v) = c")
    case True
    then have c: "fst c = k" "snd c = v" by auto
    from True Cons.prems have "k \<notin> fst ` set cs" by force
    then have "fold (\<lambda>c m. m(fst c \<mapsto> snd c)) cs (m0(fst c \<mapsto> snd c)) k
               = (m0(fst c \<mapsto> snd c)) k"
      by (rule fold_set_pairs_notin)
    also have "\<dots> = Some v"
      by (simp only: c fun_upd_same)
    finally show ?thesis
      by (simp only: fold_simps)
  next
    case False
    with Cons.prems have "(k, v) \<in> set cs" "distinct (map fst cs)" by auto
    then show ?thesis using Cons.IH by simp
  qed
qed

lemma groupBy_postId_keys: "map fst (groupBy_postId rows) = remdups (map like_postId rows)"
  by (simp add: groupBy_postId_def comp_def)

lemma groupBy_postId_distinct: "distinct (map fst (groupBy_postId rows))"
  by (simp add: groupBy_postId_keys)

lemma groupBy_postId_mem:
  "k \<in> like_postId ` set rows \<Longrightarrow>
   (k, count_where (\<lambda>l. like_postId l = k) rows) \<in> set (groupBy_postId rows)"
  by (auto simp: groupBy_postId_def)

lemma groupBy_postId_fst: "fst ` set (groupBy_postId rows) = like_postId ` set rows"
  by (auto simp: groupBy_postId_def image_iff)

lemma count_where_restrict:
  "k \<in> A \<Longrightarrow> count_where (\<lambda>l. like_postId l = k) (filter (\<lambda>l. like_postId l \<in> A) rows)
        = count_where (\<lambda>l. like_postId l = k) rows"
  by (induction rows) (auto simp: count_where_def)

lemma count_where_zero_iff: "count_where P rows = 0 \<longleftrightarrow> (\<forall>r \<in> set rows. \<not> P r)"
  by (simp add: count_where_def filter_empty_conv)

lemma countByPosts_unfold:
  "LikeService_countByPosts s postIds k
   = fold (\<lambda>c m. m(fst c \<mapsto> snd c))
       (groupBy_postId (filter (\<lambda>l. like_postId l \<in> set postIds) (likes s)))
       (fold (\<lambda>i m. m(i \<mapsto> 0)) postIds Map.empty) k"
  by (simp only: LikeService_countByPosts_def Let_def)

lemma countByPosts_lookup:
  "LikeService_countByPosts s postIds k
   = (if k \<in> set postIds then Some (count_where (\<lambda>l. like_postId l = k) (likes s)) else None)"
proof -
  let ?rows = "filter (\<lambda>l. like_postId l \<in> set postIds) (likes s)"
  let ?init = "fold (\<lambda>i m. m(i \<mapsto> 0)) postIds Map.empty"
  have init: "?init k = (if k \<in> set postIds then Some 0 else None)"
    by (simp only: fold_set_const [of 0 postIds Map.empty k])
  show ?thesis
  proof (cases "k \<in> like_postId ` set ?rows")
    case True
    then have k_in: "k \<in> set postIds"
      by auto
    from True have "(k, count_where (\<lambda>l. like_postId l = k) ?rows) \<in> set (groupBy_postId ?rows)"
      by (rule groupBy_postId_mem)
    with groupBy_postId_distinct
    have "fold (\<lambda>c m. m(fst c \<mapsto> snd c)) (groupBy_postId ?rows) ?init k
          = Some (count_where (\<lambda>l. like_postId l = k) ?rows)"
      by (rule fold_set_pairs_in)
    also have "count_where (\<lambda>l. like_postId l = k) ?rows
               = count_where (\<lambda>l. like_postId l = k) (likes s)"
      using k_in by (rule count_where_restrict)
    finally show ?thesis
      using k_in by (simp only: countByPosts_unfold if_True)
  next
    case False
    then have "k \<notin> fst ` set (groupBy_postId ?rows)"
      by (simp only: groupBy_postId_fst not_False_eq_True)
    then have step: "fold (\<lambda>c m. m(fst c \<mapsto> snd c)) (groupBy_postId ?rows) ?init k = ?init k"
      by (rule fold_set_pairs_notin)
    show ?thesis
    proof (cases "k \<in> set postIds")
      case k_in: True
      with False have "\<forall>l \<in> set (likes s). like_postId l \<noteq> k"
        by auto
      then have "count_where (\<lambda>l. like_postId l = k) (likes s) = 0"
        by (simp only: count_where_zero_iff)
      with step init k_in show ?thesis
        by (simp only: countByPosts_unfold if_True)
    next
      case k_out: False
      with step init show ?thesis
        by (simp only: countByPosts_unfold if_False)
    qed
  qed
qed

lemma hasLikedPosts_lookup:
  "LikeService_hasLikedPosts s u postIds k
   = (if k \<in> set postIds
      then Some (\<exists>l \<in> set (likes s). like_userId l = u \<and> like_postId l = k) else None)"
  by (auto simp: LikeService_hasLikedPosts_def Let_def fold_set_const findMany_unordered_def)

text \<open>
  C5. The maps of \<open>countByPosts\<close> and \<open>hasLikedPosts\<close> have an entry for exactly
  the requested ids. A requested id maps to the number of likes of that post, which is 0
  when the post has no like, and to whether the user has a like on that post, which is
  \<open>False\<close> when there is none.
\<close>

theorem batch_maps_total:
  "dom (LikeService_countByPosts s postIds) = set postIds
   \<and> (\<forall>i \<in> set postIds.
        LikeService_countByPosts s postIds i
          = Some (count_where (\<lambda>l. like_postId l = i) (likes s)))
   \<and> (\<forall>i \<in> set postIds.
        (\<forall>l \<in> set (likes s). like_postId l \<noteq> i) \<longrightarrow>
        LikeService_countByPosts s postIds i = Some 0)
   \<and> dom (LikeService_hasLikedPosts s userId postIds) = set postIds
   \<and> (\<forall>i \<in> set postIds.
        LikeService_hasLikedPosts s userId postIds i
          = Some (\<exists>l \<in> set (likes s). like_userId l = userId \<and> like_postId l = i))
   \<and> (\<forall>i \<in> set postIds.
        (\<forall>l \<in> set (likes s). \<not> (like_userId l = userId \<and> like_postId l = i)) \<longrightarrow>
        LikeService_hasLikedPosts s userId postIds i = Some False)"
proof (intro conjI ballI impI)
  show "dom (LikeService_countByPosts s postIds) = set postIds"
    by (auto simp: dom_def countByPosts_lookup)
  show "dom (LikeService_hasLikedPosts s userId postIds) = set postIds"
    by (auto simp: dom_def hasLikedPosts_lookup)
next
  fix i assume "i \<in> set postIds"
  then show "LikeService_countByPosts s postIds i
          = Some (count_where (\<lambda>l. like_postId l = i) (likes s))"
    by (simp add: countByPosts_lookup)
next
  fix i assume "i \<in> set postIds" "\<forall>l \<in> set (likes s). like_postId l \<noteq> i"
  then show "LikeService_countByPosts s postIds i = Some 0"
    by (simp add: countByPosts_lookup count_where_zero_iff)
next
  fix i assume "i \<in> set postIds"
  then show "LikeService_hasLikedPosts s userId postIds i
          = Some (\<exists>l \<in> set (likes s). like_userId l = userId \<and> like_postId l = i)"
    by (simp add: hasLikedPosts_lookup)
next
  fix i assume "i \<in> set postIds"
    "\<forall>l \<in> set (likes s). \<not> (like_userId l = userId \<and> like_postId l = i)"
  then show "LikeService_hasLikedPosts s userId postIds i = Some False"
    by (simp add: hasLikedPosts_lookup)
qed

theorem batch_maps_total_witness:
  "LikeService_countByPosts ex_store [''p1'', ''p2''] ''p1'' = Some 1
   \<and> LikeService_countByPosts ex_store [''p1'', ''p2''] ''p2'' = Some 0
   \<and> LikeService_hasLikedPosts ex_store ''u1'' [''p1'', ''p2''] ''p1'' = Some True
   \<and> LikeService_hasLikedPosts ex_store ''u1'' [''p1'', ''p2''] ''p2'' = Some False
   \<and> dom (LikeService_countByPosts ex_store [''p1'', ''p2'']) = set [''p1'', ''p2'']"
proof -
  note t = batch_maps_total [of ex_store "[''p1'', ''p2'']" "''u1''"]
  have ls: "likes ex_store = [ex_like]"
    by (simp add: ex_store_def)
  have one: "count_where (\<lambda>l. like_postId l = ''p1'') (likes ex_store) = 1"
    by (simp add: count_where_def ex_like_def ls)
  have liked1: "\<exists>l \<in> set (likes ex_store). like_userId l = ''u1'' \<and> like_postId l = ''p1''"
    by (simp add: ex_like_def ls)
  have none2: "\<forall>l \<in> set (likes ex_store). like_postId l \<noteq> ''p2''"
    by (simp add: ex_like_def ls)
  have c1: "LikeService_countByPosts ex_store [''p1'', ''p2''] ''p1'' = Some 1"
    using t [THEN conjunct2, THEN conjunct1, rule_format, of "''p1''"] one by simp
  have c2: "LikeService_countByPosts ex_store [''p1'', ''p2''] ''p2'' = Some 0"
    using t [THEN conjunct2, THEN conjunct2, THEN conjunct1, rule_format, of "''p2''"] none2
    by simp
  have h1: "LikeService_hasLikedPosts ex_store ''u1'' [''p1'', ''p2''] ''p1'' = Some True"
    using t [THEN conjunct2, THEN conjunct2, THEN conjunct2, THEN conjunct2, THEN conjunct1,
        rule_format, of "''p1''"] liked1 by simp
  have h2: "LikeService_hasLikedPosts ex_store ''u1'' [''p1'', ''p2''] ''p2'' = Some False"
    using t [THEN conjunct2, THEN conjunct2, THEN conjunct2, THEN conjunct2, THEN conjunct2,
        rule_format, of "''p2''"] none2 by simp
  from t have d: "dom (LikeService_countByPosts ex_store [''p1'', ''p2'']) = set [''p1'', ''p2'']"
    by (rule conjunct1)
  from c1 c2 h1 h2 d show ?thesis by (intro conjI)
qed

section \<open>Replies\<close>

lemma exists_comments_update [simp]:
  "user_exists (s\<lparr>comments := cs\<rparr>) u = user_exists s u"
  "post_exists (s\<lparr>comments := cs\<rparr>) p = post_exists s p"
  by (simp_all add: user_exists_def post_exists_def)









section \<open>The feed\<close>

lemma post_where_published_only:
  "post_where \<lparr>filter_authorId = None, filter_published = Some True, filter_search = None\<rparr>
   = post_published"
  by (intro ext) (simp add: post_where_def falsy_def)

lemma getFeed_lists_published:
  assumes "0 < page" "0 < limit" "pp_page params = Some page" "pp_limit params = Some limit"
  shows "PostService_getFeed s params
         = Inr (spec_page page limit
                  (map (with_counts s)
                     (orderBy Desc post_createdAt (filter post_published (posts s)))))"
  using posts_page [OF assms, of s
      "\<lparr>filter_authorId = None, filter_published = Some True, filter_search = None\<rparr>"]
  by (simp add: PostService_getFeed_def post_where_published_only)

text \<open>
  C9. \<open>getFeed\<close> is \<open>getAll\<close> with the filter \<open>published = true\<close> and no other
  filter: the two functions are equal.
\<close>

theorem getFeed_is_getAll_published:
  "PostService_getFeed
   = (\<lambda>s params. PostService_getAll s params
        \<lparr>filter_authorId = None, filter_published = Some True, filter_search = None\<rparr>)"
  by (intro ext) (simp add: PostService_getFeed_def)

theorem getFeed_is_getAll_published_witness:
  "PostService_getFeed ex_store \<lparr>pp_page = Some 1, pp_limit = Some 10, pp_cursor = None\<rparr>
   = PostService_getAll ex_store \<lparr>pp_page = Some 1, pp_limit = Some 10, pp_cursor = None\<rparr>
       \<lparr>filter_authorId = None, filter_published = Some True, filter_search = None\<rparr>
   \<and> (\<exists>r. PostService_getFeed ex_store \<lparr>pp_page = Some 1, pp_limit = Some 10, pp_cursor = None\<rparr>
             = Inr r \<and> map pwc_post (data r) = [ex_post])"
proof -
  have "PostService_getAll ex_store \<lparr>pp_page = Some 1, pp_limit = Some 10, pp_cursor = None\<rparr>
          \<lparr>filter_authorId = None, filter_published = Some True, filter_search = None\<rparr>
        = Inr (spec_page 1 10
                 (map (with_counts ex_store)
                    (orderBy Desc post_createdAt
                       (filter (post_where \<lparr>filter_authorId = None, filter_published = Some True,
                                              filter_search = None\<rparr>) (posts ex_store)))))"
    by (rule posts_page) simp_all
  then show ?thesis
    unfolding getFeed_is_getAll_published
    by (simp add: spec_page_def post_where_published_only orderBy_def ex_store_def ex_post_def
        with_counts_def)
qed

section \<open>Authorship\<close>

text \<open>
  C10. For a post id that no post has, \<open>isAuthor\<close> of the post service returns
  \<open>False\<close>; for a comment id that no comment has, \<open>isAuthor\<close> of the comment
  service returns \<open>False\<close>. Both return a boolean and never fail.
\<close>

theorem isAuthor_missing_is_false:
  "((\<forall>p \<in> set (posts s). post_id p \<noteq> postId) \<longrightarrow> PostService_isAuthor s postId userId = False)
   \<and> ((\<forall>c \<in> set (comments s). comment_id c \<noteq> commentId) \<longrightarrow>
        CommentService_isAuthor s commentId userId = False)"
proof (intro conjI impI)
  assume "\<forall>p \<in> set (posts s). post_id p \<noteq> postId"
  then have "findUnique (\<lambda>p. post_id p = postId) (posts s) = None"
    by (simp add: findUnique_None_iff)
  then show "PostService_isAuthor s postId userId = False"
    by (simp add: PostService_isAuthor_def)
next
  assume "\<forall>c \<in> set (comments s). comment_id c \<noteq> commentId"
  then have "findUnique (\<lambda>c. comment_id c = commentId) (comments s) = None"
    by (simp add: findUnique_None_iff)
  then show "CommentService_isAuthor s commentId userId = False"
    by (simp add: CommentService_isAuthor_def)
qed

theorem isAuthor_missing_is_false_witness:
  "PostService_isAuthor ex_store ''p9'' ''u1'' = False
   \<and> CommentService_isAuthor ex_store ''c9'' ''u1'' = False"
proof -
  have a: "\<forall>p \<in> set (posts ex_store). post_id p \<noteq> ''p9''"
    by (simp add: ex_store_def ex_post_def)
  have b: "\<forall>c \<in> set (comments ex_store). comment_id c \<noteq> ''c9''"
    by (simp add: ex_store_def ex_comment_def ex_reply_late_def ex_reply_early_def)
  from isAuthor_missing_is_false [of ex_store "''p9''" "''u1''" "''c9''"] a b
  show ?thesis by blast
qed

section \<open>Creating a user\<close>

lemma emailExists_iff:
  "UserService_emailExists s e \<longleftrightarrow> (\<exists>u \<in> set (users s). user_email u = e)"
  by (simp add: UserService_emailExists_def findUnique_None_iff)

lemma usernameExists_iff:
  "UserService_usernameExists s n \<longleftrightarrow> (\<exists>u \<in> set (users s). user_username u = n)"
  by (simp add: UserService_usernameExists_def findUnique_None_iff)

lemma create_user_email_taken:
  assumes "body_email b = Some e" "e \<noteq> []" "body_username b = Some n" "n \<noteq> []"
    and "UserService_emailExists s e"
  shows "userHandlers_create g s (Some b) = (s, jsonResponse (failure ''Email already in use'') 409)"
  using assms by (simp add: userHandlers_create_def falsy_def Let_def)

lemma create_user_username_taken:
  assumes "body_email b = Some e" "e \<noteq> []" "body_username b = Some n" "n \<noteq> []"
    and "\<not> UserService_emailExists s e" "UserService_usernameExists s n"
  shows "userHandlers_create g s (Some b)
         = (s, jsonResponse (failure ''Username already taken'') 409)"
  using assms by (simp add: userHandlers_create_def falsy_def Let_def)

lemma create_user_fresh:
  assumes "body_email b = Some e" "e \<noteq> []" "body_username b = Some n" "n \<noteq> []"
    and "\<not> UserService_emailExists s e" "\<not> UserService_usernameExists s n"
  shows "\<exists>s' u. userHandlers_create g s (Some b) = (s', jsonResponse (succeeded u) 201)
           \<and> users s' = users s @ [u] \<and> user_email u = e \<and> user_username u = n"
  using assms
  by (simp add: userHandlers_create_def falsy_def Let_def UserService_create_def user_create_def
      UserService_emailExists_def UserService_usernameExists_def)

text \<open>
  C6, as amended. For a request that carries a non-empty email and a non-empty username:
  when the email belongs to an existing user the handler answers 409 with
  \<open>Email already in use\<close> and leaves the store as it was; when the email is free and
  the username belongs to an existing user it answers 409 with \<open>Username already taken\<close>
  and leaves the store as it was. In both cases the insert is not reached.
\<close>

theorem create_user_conflicts:
  assumes "body_email b = Some e" and "e \<noteq> []"
    and "body_username b = Some n" and "n \<noteq> []"
  shows "(UserService_emailExists s e \<longrightarrow>
            userHandlers_create g s (Some b)
              = (s, jsonResponse (failure ''Email already in use'') 409))
       \<and> (\<not> UserService_emailExists s e \<and> UserService_usernameExists s n \<longrightarrow>
            userHandlers_create g s (Some b)
              = (s, jsonResponse (failure ''Username already taken'') 409))"
  using create_user_email_taken [OF assms] create_user_username_taken [OF assms]
  by blast

theorem create_user_conflicts_witness:
  "userHandlers_create ex_gen ex_store (Some (ex_body ''a@x.com'' (Some ''zed'')))
     = (ex_store, jsonResponse (failure ''Email already in use'') 409)
   \<and> userHandlers_create ex_gen ex_store (Some (ex_body ''z@x.com'' (Some ''b'')))
     = (ex_store, jsonResponse (failure ''Username already taken'') 409)"
proof -
  have e1: "UserService_emailExists ex_store ''a@x.com''"
    by (simp add: emailExists_iff ex_store_def ex_alice_def)
  have e2: "\<not> UserService_emailExists ex_store ''z@x.com''"
    by (simp add: emailExists_iff ex_store_def ex_alice_def ex_bob_def)
  have n2: "UserService_usernameExists ex_store ''b''"
    by (simp add: usernameExists_iff ex_store_def ex_bob_def)
  have a: "userHandlers_create ex_gen ex_store (Some (ex_body ''a@x.com'' (Some ''zed'')))
     = (ex_store, jsonResponse (failure ''Email already in use'') 409)"
    using create_user_conflicts [of "ex_body ''a@x.com'' (Some ''zed'')" "''a@x.com''" "''zed''"
        ex_store ex_gen] e1
    by (simp add: ex_body_def)
  have b: "userHandlers_create ex_gen ex_store (Some (ex_body ''z@x.com'' (Some ''b'')))
     = (ex_store, jsonResponse (failure ''Username already taken'') 409)"
    using create_user_conflicts [of "ex_body ''z@x.com'' (Some ''b'')" "''z@x.com''" "''b''"
        ex_store ex_gen] e2 n2
    by (simp add: ex_body_def)
  from a b show ?thesis by (rule conjI)
qed

text \<open>
  The claim as first stated fails at two requests against the small store. The email
  \<open>a@x.com\<close> belongs to a user, yet a request with that email and no username is
  answered 400. A request with that email and the username \<open>b\<close>, which also belongs to
  a user, is answered with \<open>Email already in use\<close>, not \<open>Username already taken\<close>.
\<close>

theorem create_user_conflicts_counterexample:
  "UserService_emailExists ex_store ''a@x.com''
   \<and> userHandlers_create ex_gen ex_store (Some (ex_body ''a@x.com'' None))
     = (ex_store, jsonResponse (failure ''Email and username are required'') 400)
   \<and> UserService_usernameExists ex_store ''b''
   \<and> userHandlers_create ex_gen ex_store (Some (ex_body ''a@x.com'' (Some ''b'')))
     = (ex_store, jsonResponse (failure ''Email already in use'') 409)"
proof (intro conjI)
  show e1: "UserService_emailExists ex_store ''a@x.com''"
    by (simp add: emailExists_iff ex_store_def ex_alice_def)
  show "UserService_usernameExists ex_store ''b''"
    by (simp add: usernameExists_iff ex_store_def ex_bob_def)
  show "userHandlers_create ex_gen ex_store (Some (ex_body ''a@x.com'' None))
     = (ex_store, jsonResponse (failure ''Email and username are required'') 400)"
    by (simp add: userHandlers_create_def falsy_def ex_body_def)
  show "userHandlers_create ex_gen ex_store (Some (ex_body ''a@x.com'' (Some ''b'')))
     = (ex_store, jsonResponse (failure ''Email already in use'') 409)"
    using e1 by (simp add: userHandlers_create_def falsy_def ex_body_def Let_def)
qed

section \<open>Liking a post\<close>

lemma hasLiked_set_iff:
  "LikeService_hasLiked s u p \<longleftrightarrow> (\<exists>l \<in> set (likes s). like_userId l = u \<and> like_postId l = p)"
  by (simp add: LikeService_hasLiked_def findUnique_None_iff)

lemma like_already_liked:
  assumes "userId \<noteq> []" "LikeService_hasLiked s userId postId"
  shows "likeHandlers_like g s postId (Some \<lparr>body_userId = Some userId\<rparr>)
         = (s, jsonResponse (failure ''Post already liked'') 409)"
  using assms by (simp add: likeHandlers_like_def falsy_def Let_def)

lemma like_not_yet_liked:
  assumes "userId \<noteq> []" "\<not> LikeService_hasLiked s userId postId"
    and "user_exists s userId" "post_exists s postId"
  shows "likeHandlers_like g s postId (Some \<lparr>body_userId = Some userId\<rparr>)
         = (s\<lparr>likes := likes s @ [\<lparr>like_id = newId g, like_userId = userId,
                                    like_postId = postId, like_createdAt = now g\<rparr>]\<rparr>,
            jsonResponse (succeeded \<lparr>like_id = newId g, like_userId = userId,
                                     like_postId = postId, like_createdAt = now g\<rparr>) 201)"
  using assms
  by (simp add: likeHandlers_like_def falsy_def Let_def LikeService_create_def like_create_def
      LikeService_hasLiked_def)

lemma like_unreferenced:
  assumes "userId \<noteq> []" "\<not> LikeService_hasLiked s userId postId"
    and "\<not> (user_exists s userId \<and> post_exists s postId)"
  shows "likeHandlers_like g s postId (Some \<lparr>body_userId = Some userId\<rparr>)
         = (s, jsonResponse (failure ''Failed to like post'') 500)"
  using assms
  by (auto simp: likeHandlers_like_def falsy_def Let_def LikeService_create_def like_create_def
      LikeService_hasLiked_def)

text \<open>
  C8, as amended. For a non-empty \<open>userId\<close>: when a like of (userId, postId) exists the
  \<open>like\<close> handler answers 409 with \<open>Post already liked\<close> and leaves the store as it
  was; when none exists and \<open>userId\<close> names an existing user and \<open>postId\<close> an
  existing post it creates the like of the pair, the one row added to the store, and
  answers 201 with it; when none exists and the user or the post does not exist the
  insert is refused, and the handler answers 500 and leaves the store as it was.
\<close>

theorem like_conflict_or_created:
  assumes "userId \<noteq> []"
  shows "((\<exists>l \<in> set (likes s). like_userId l = userId \<and> like_postId l = postId) \<longrightarrow>
            likeHandlers_like g s postId (Some \<lparr>body_userId = Some userId\<rparr>)
              = (s, jsonResponse (failure ''Post already liked'') 409))
       \<and> (\<not> (\<exists>l \<in> set (likes s). like_userId l = userId \<and> like_postId l = postId)
            \<and> user_exists s userId \<and> post_exists s postId \<longrightarrow>
            likeHandlers_like g s postId (Some \<lparr>body_userId = Some userId\<rparr>)
              = (s\<lparr>likes := likes s @ [\<lparr>like_id = newId g, like_userId = userId,
                                         like_postId = postId, like_createdAt = now g\<rparr>]\<rparr>,
                 jsonResponse (succeeded \<lparr>like_id = newId g, like_userId = userId,
                                          like_postId = postId, like_createdAt = now g\<rparr>) 201))
       \<and> (\<not> (\<exists>l \<in> set (likes s). like_userId l = userId \<and> like_postId l = postId)
            \<and> \<not> (user_exists s userId \<and> post_exists s postId) \<longrightarrow>
            likeHandlers_like g s postId (Some \<lparr>body_userId = Some userId\<rparr>)
              = (s, jsonResponse (failure ''Failed to like post'') 500))"
proof (intro conjI impI)
  assume "\<exists>l \<in> set (likes s). like_userId l = userId \<and> like_postId l = postId"
  then have "LikeService_hasLiked s userId postId"
    by (simp add: hasLiked_set_iff)
  with assms show "likeHandlers_like g s postId (Some \<lparr>body_userId = Some userId\<rparr>)
              = (s, jsonResponse (failure ''Post already liked'') 409)"
    by (rule like_already_liked)
next
  assume a: "\<not> (\<exists>l \<in> set (likes s). like_userId l = userId \<and> like_postId l = postId)
            \<and> user_exists s userId \<and> post_exists s postId"
  then have "\<not> LikeService_hasLiked s userId postId"
    by (simp add: hasLiked_set_iff)
  moreover from a have "user_exists s userId" "post_exists s postId"
    by simp_all
  ultimately show "likeHandlers_like g s postId (Some \<lparr>body_userId = Some userId\<rparr>)
              = (s\<lparr>likes := likes s @ [\<lparr>like_id = newId g, like_userId = userId,
                                         like_postId = postId, like_createdAt = now g\<rparr>]\<rparr>,
                 jsonResponse (succeeded \<lparr>like_id = newId g, like_userId = userId,
                                          like_postId = postId, like_createdAt = now g\<rparr>) 201)"
    using assms by (intro like_not_yet_liked)
next
  assume a: "\<not> (\<exists>l \<in> set (likes s). like_userId l = userId \<and> like_postId l = postId)
            \<and> \<not> (user_exists s userId \<and> post_exists s postId)"
  then have "\<not> LikeService_hasLiked s userId postId"
    by (simp add: hasLiked_set_iff)
  moreover from a have "\<not> (user_exists s userId \<and> post_exists s postId)"
    by simp
  ultimately show "likeHandlers_like g s postId (Some \<lparr>body_userId = Some userId\<rparr>)
              = (s, jsonResponse (failure ''Failed to like post'') 500)"
    using assms by (intro like_unreferenced)
qed

theorem like_conflict_or_created_witness:
  "likeHandlers_like ex_gen ex_store ''p1'' (Some \<lparr>body_userId = Some ''u1''\<rparr>)
     = (ex_store, jsonResponse (failure ''Post already liked'') 409)
   \<and> likeHandlers_like ex_gen ex_store ''p1'' (Some \<lparr>body_userId = Some ''u2''\<rparr>)
     = (ex_store\<lparr>likes := [ex_like, \<lparr>like_id = ''n1'', like_userId = ''u2'',
                                        like_postId = ''p1'', like_createdAt = 100\<rparr>]\<rparr>,
        jsonResponse (succeeded \<lparr>like_id = ''n1'', like_userId = ''u2'',
                                 like_postId = ''p1'', like_createdAt = 100\<rparr>) 201)
   \<and> likeHandlers_like ex_gen ex_store ''p9'' (Some \<lparr>body_userId = Some ''u2''\<rparr>)
     = (ex_store, jsonResponse (failure ''Failed to like post'') 500)"
proof -
  have ls: "likes ex_store = [ex_like]"
    by (simp add: ex_store_def)
  have yes: "\<exists>l \<in> set (likes ex_store). like_userId l = ''u1'' \<and> like_postId l = ''p1''"
    by (simp add: ls ex_like_def)
  have no: "\<not> (\<exists>l \<in> set (likes ex_store). like_userId l = ''u2'' \<and> like_postId l = ''p1'')"
    by (simp add: ls ex_like_def)
  have no9: "\<not> (\<exists>l \<in> set (likes ex_store). like_userId l = ''u2'' \<and> like_postId l = ''p9'')"
    by (simp add: ls ex_like_def)
  have ue: "user_exists ex_store ''u2''"
    by (simp add: user_exists_def findUnique_def ex_store_def ex_alice_def ex_bob_def)
  have pe: "post_exists ex_store ''p1''"
    by (simp add: post_exists_def findUnique_def ex_store_def ex_post_def)
  have pe9: "\<not> (user_exists ex_store ''u2'' \<and> post_exists ex_store ''p9'')"
    by (simp add: post_exists_def findUnique_def ex_store_def ex_post_def)
  have a: "likeHandlers_like ex_gen ex_store ''p1'' (Some \<lparr>body_userId = Some ''u1''\<rparr>)
     = (ex_store, jsonResponse (failure ''Post already liked'') 409)"
    using like_conflict_or_created [of "''u1''" ex_store "''p1''" ex_gen] yes by blast
  have "likeHandlers_like ex_gen ex_store ''p1'' (Some \<lparr>body_userId = Some ''u2''\<rparr>)
     = (ex_store\<lparr>likes := likes ex_store @ [\<lparr>like_id = newId ex_gen, like_userId = ''u2'',
                                         like_postId = ''p1'', like_createdAt = now ex_gen\<rparr>]\<rparr>,
        jsonResponse (succeeded \<lparr>like_id = newId ex_gen, like_userId = ''u2'',
                                 like_postId = ''p1'', like_createdAt = now ex_gen\<rparr>) 201)"
    using like_conflict_or_created [of "''u2''" ex_store "''p1''" ex_gen] no ue pe by blast
  then have b: "likeHandlers_like ex_gen ex_store ''p1'' (Some \<lparr>body_userId = Some ''u2''\<rparr>)
     = (ex_store\<lparr>likes := [ex_like, \<lparr>like_id = ''n1'', like_userId = ''u2'',
                                        like_postId = ''p1'', like_createdAt = 100\<rparr>]\<rparr>,
        jsonResponse (succeeded \<lparr>like_id = ''n1'', like_userId = ''u2'',
                                 like_postId = ''p1'', like_createdAt = 100\<rparr>) 201)"
    by (simp add: ls ex_gen_def)
  have c: "likeHandlers_like ex_gen ex_store ''p9'' (Some \<lparr>body_userId = Some ''u2''\<rparr>)
     = (ex_store, jsonResponse (failure ''Failed to like post'') 500)"
    using like_conflict_or_created [of "''u2''" ex_store "''p9''" ex_gen] no9 pe9 by blast
  from a b c show ?thesis by (intro conjI)
qed

text \<open>
  The claim as first stated fails at two requests against the small store, neither of
  which has a like on the post. For the empty \<open>userId\<close> the handler answers 400; for a
  \<open>userId\<close> that names no user it answers 500. Neither creates a like.
\<close>

theorem like_conflict_or_created_counterexample:
  "\<not> LikeService_hasLiked ex_store [] ''p1''
   \<and> likeHandlers_like ex_gen ex_store ''p1'' (Some \<lparr>body_userId = Some []\<rparr>)
     = (ex_store, jsonResponse (failure ''userId is required'') 400)
   \<and> \<not> LikeService_hasLiked ex_store ''ghost'' ''p1''
   \<and> likeHandlers_like ex_gen ex_store ''p1'' (Some \<lparr>body_userId = Some ''ghost''\<rparr>)
     = (ex_store, jsonResponse (failure ''Failed to like post'') 500)"
proof (intro conjI)
  show "\<not> LikeService_hasLiked ex_store [] ''p1''"
    by (simp add: LikeService_hasLiked_def findUnique_def ex_store_def ex_like_def)
  show "likeHandlers_like ex_gen ex_store ''p1'' (Some \<lparr>body_userId = Some []\<rparr>)
     = (ex_store, jsonResponse (failure ''userId is required'') 400)"
    by (simp add: likeHandlers_like_def falsy_def)
  show nl: "\<not> LikeService_hasLiked ex_store ''ghost'' ''p1''"
    by (simp add: LikeService_hasLiked_def findUnique_def ex_store_def ex_like_def)
  have "\<not> user_exists ex_store ''ghost''"
    by (simp add: user_exists_def findUnique_def ex_store_def ex_alice_def ex_bob_def)
  with nl show "likeHandlers_like ex_gen ex_store ''p1'' (Some \<lparr>body_userId = Some ''ghost''\<rparr>)
     = (ex_store, jsonResponse (failure ''Failed to like post'') 500)"
    by (simp add: likeHandlers_like_def falsy_def Let_def LikeService_create_def like_create_def
        LikeService_hasLiked_def)
qed

section \<open>Ordering\<close>

lemma orderBy_Asc_sorted: "sorted (map key (orderBy Asc key rows))"
  by (simp add: orderBy_def)

lemma orderBy_Desc_sorted: "sorted_wrt (\<lambda>a b. b \<le> a) (map key (orderBy Desc key rows))"
proof -
  have "sorted (rev (map key (orderBy Desc key rows)))"
    by (simp add: orderBy_def rev_map)
  then show ?thesis
    by (simp only: sorted_wrt_rev)
qed

lemma findMany_Desc_sorted:
  assumes "findMany P Desc key skip tk rows = Inr xs"
  shows "sorted_wrt (\<lambda>a b. b \<le> a) (map key xs)"
proof -
  let ?o = "orderBy Desc key (filter P rows)"
  have desc: "sorted_wrt (\<lambda>a b. b \<le> a) (map key ?o)"
    by (rule orderBy_Desc_sorted)
  show ?thesis
  proof (cases "0 \<le> tk")
    case True
    with assms have "xs = take (nat tk) (drop (nat skip) ?o)"
      by (auto simp: findMany_def Let_def split: if_splits)
    then have "map key xs = take (nat tk) (drop (nat skip) (map key ?o))"
      by (simp add: take_map drop_map)
    with desc show ?thesis
      by simp
  next
    case False
    with assms have "xs = rev (take (nat (- tk)) (drop (nat skip) (rev ?o)))"
      by (auto simp: findMany_def Let_def split: if_splits)
    then have eq: "map key xs = rev (take (nat (- tk)) (drop (nat skip) (rev (map key ?o))))"
      by (simp add: take_map drop_map rev_map)
    from desc have "sorted (rev (map key ?o))"
      by (simp only: sorted_wrt_rev)
    then have "sorted (take (nat (- tk)) (drop (nat skip) (rev (map key ?o))))"
      by simp
    then have "sorted (rev (map key xs))"
      by (simp only: eq rev_rev_ident)
    then show ?thesis
      by (simp only: sorted_wrt_rev)
  qed
qed

lemma with_replies_ascending:
  "sorted (map (\<lambda>r. comment_createdAt (fst r)) (cwr_replies (with_replies s c)))"
proof -
  have "map (\<lambda>r. comment_createdAt (fst r)) (cwr_replies (with_replies s c))
        = map comment_createdAt (orderBy Asc comment_createdAt (filter (reply_to c) (comments s)))"
    by (simp add: with_replies_def with_author_def comp_def)
  then show ?thesis
    by (simp only: orderBy_Asc_sorted)
qed

lemma comment_getById_replies_ascending:
  assumes "CommentService_getById s cid = Some v"
  shows "sorted (map (\<lambda>r. comment_createdAt (fst r)) (cwr_replies v))"
  using assms with_replies_ascending by (auto simp: CommentService_getById_def)

lemma comment_getByPost_ordering:
  assumes "CommentService_getByPost s postId params = Inr r"
  shows "sorted_wrt (\<lambda>a b. b \<le> a) (map (\<lambda>c. comment_createdAt (cwr_comment c)) (data r))"
    and "\<forall>c \<in> set (data r). sorted (map (\<lambda>r. comment_createdAt (fst r)) (cwr_replies c))"
proof -
  let ?page = "case pp_page params of None \<Rightarrow> 1 | Some p \<Rightarrow> p"
  let ?limit = "case pp_limit params of None \<Rightarrow> 20 | Some l \<Rightarrow> l"
  let ?wh = "\<lambda>c. comment_postId c = postId \<and> comment_parentId c = None"
  from assms obtain cs where
    fm: "findMany ?wh Desc comment_createdAt ((?page - 1) * ?limit) ?limit (comments s) = Inr cs"
    and d: "data r = map (with_replies s) cs"
    by (auto simp: CommentService_getByPost_def Let_def split: sum.splits)
  have "map (\<lambda>c. comment_createdAt (cwr_comment c)) (data r) = map comment_createdAt cs"
    by (simp add: d with_replies_def comp_def)
  with findMany_Desc_sorted [OF fm]
  show "sorted_wrt (\<lambda>a b. b \<le> a) (map (\<lambda>c. comment_createdAt (cwr_comment c)) (data r))"
    by simp
  show "\<forall>c \<in> set (data r). sorted (map (\<lambda>r. comment_createdAt (fst r)) (cwr_replies c))"
    using with_replies_ascending by (auto simp: d)
qed

lemma post_getById_comments_descending:
  assumes "PostService_getById s pid = Some v"
  shows "sorted_wrt (\<lambda>a b. b \<le> a)
           (map (\<lambda>c. comment_createdAt (cwr_comment c)) (full_comments v))"
proof -
  from assms obtain p where p: "findUnique (\<lambda>p. post_id p = pid) (posts s) = Some p"
    by (auto simp: PostService_getById_def split: option.splits)
  with assms have "full_comments v =
       map (\<lambda>c. \<lparr>cwr_comment = c,
                  cwr_author = author_of s (comment_authorId c),
                  cwr_replies = map (with_author s)
                                  (findMany_unordered (reply_to c) (comments s))\<rparr>)
         (orderBy Desc comment_createdAt
            (filter (\<lambda>c. comment_postId c = post_id p \<and> comment_parentId c = None)
               (comments s)))"
    by (auto simp: PostService_getById_def)
  then have "map (\<lambda>c. comment_createdAt (cwr_comment c)) (full_comments v)
             = map comment_createdAt
                 (orderBy Desc comment_createdAt
                    (filter (\<lambda>c. comment_postId c = post_id p \<and> comment_parentId c = None)
                       (comments s)))"
    by (simp add: comp_def)
  then show ?thesis
    by (simp only: orderBy_Desc_sorted)
qed

text \<open>
  C7. The paged lists and the top-level comments of a post are newest first, and the
  replies under \<open>getById\<close> and \<open>getByPost\<close> of the comment service are oldest first
  (the lemmas above). The hydrated post view of \<open>getById\<close> does not order the replies:
  at the small store it lists the replies of the comment with the creation times 30 and
  then 20, the order in which the store holds them, where \<open>getById\<close> of the comment
  service lists the same replies as 20 and then 30.
\<close>

theorem post_getById_replies_in_store_order:
  "map_option
     (\<lambda>v. map (\<lambda>c. map (\<lambda>r. comment_createdAt (fst r)) (cwr_replies c)) (full_comments v))
     (PostService_getById ex_store ''p1'') = Some [[30, 20]]
   \<and> map_option (\<lambda>v. map (\<lambda>r. comment_createdAt (fst r)) (cwr_replies v))
       (CommentService_getById ex_store ''c1'') = Some [20, 30]
   \<and> \<not> sorted [30, 20 :: nat]"
proof (intro conjI)
  have top: "orderBy Desc comment_createdAt
               (filter (\<lambda>c. comment_postId c = ''p1'' \<and> comment_parentId c = None)
                  (comments ex_store)) = [ex_comment]"
    by (simp add: orderBy_def ex_store_def ex_comment_def ex_reply_late_def ex_reply_early_def)
  have reps: "filter (reply_to ex_comment) (comments ex_store) = [ex_reply_late, ex_reply_early]"
    by (simp add: reply_to_def ex_store_def ex_comment_def ex_reply_late_def ex_reply_early_def)
  have found: "findUnique (\<lambda>p. post_id p = ''p1'') (posts ex_store) = Some ex_post"
    by (simp add: findUnique_def ex_store_def ex_post_def)
  have pid: "post_id ex_post = ''p1''"
    by (simp add: ex_post_def)
  have times: "comment_createdAt ex_reply_late = 30" "comment_createdAt ex_reply_early = 20"
    by (simp_all add: ex_reply_late_def ex_reply_early_def)
  show "map_option
     (\<lambda>v. map (\<lambda>c. map (\<lambda>r. comment_createdAt (fst r)) (cwr_replies c)) (full_comments v))
     (PostService_getById ex_store ''p1'') = Some [[30, 20]]"
    by (simp add: PostService_getById_def found pid top findMany_unordered_def reps
        with_author_def times)
  have cfound: "findUnique (\<lambda>c. comment_id c = ''c1'') (comments ex_store) = Some ex_comment"
    by (simp add: findUnique_def ex_store_def ex_comment_def)
  have sorted_reps: "orderBy Asc comment_createdAt [ex_reply_late, ex_reply_early]
                     = [ex_reply_early, ex_reply_late]"
    by (simp add: orderBy_def times)
  show "map_option (\<lambda>v. map (\<lambda>r. comment_createdAt (fst r)) (cwr_replies v))
       (CommentService_getById ex_store ''c1'') = Some [20, 30]"
    by (simp add: CommentService_getById_def cfound with_replies_def reps sorted_reps
        with_author_def times)
  show "\<not> sorted [30, 20 :: nat]"
    by simp
qed

end
